theory Spec2Isabelle
  imports Complex_Main
begin

section \<open>Python values\<close>

text \<open>
  The script \<^verbatim>\<open>chat_with_claude.py\<close> works on the values that \<^verbatim>\<open>json\<close> parsing
  produces: \<^verbatim>\<open>None\<close>, booleans, numbers, strings, lists and dicts.  A dict is an
  association list, looked up with \<open>map_of\<close>; \<^verbatim>\<open>None\<close> is \<open>JNull\<close>.
\<close>

datatype json =
    JNull
  | JBool bool
  | JInt int
  | JFloat real
  | JStr string
  | JArr "json list"
  | JObj "(string \<times> json) list"

type_synonym dict = "(string \<times> json) list"

text \<open>
  Exceptions are values.  The class decides which \<^verbatim>\<open>except\<close> clause catches the
  exception: \<^verbatim>\<open>except requests.exceptions.RequestException\<close> catches the classes of
  the \<^verbatim>\<open>requests\<close> library (\<open>RequestsJSONDecodeError\<close> is
  \<^verbatim>\<open>requests.exceptions.JSONDecodeError\<close>, which \<^verbatim>\<open>response.json()\<close> raises on a
  malformed body since requests 2.27; \<open>HTTPError\<close> is what
  \<^verbatim>\<open>raise_for_status\<close> raises on a 4xx or 5xx status), \<^verbatim>\<open>except Exception\<close>
  catches every class below.  An exception carries its message (\<^verbatim>\<open>str(e)\<close>) and,
  for the classes of \<^verbatim>\<open>requests\<close>, the text of the response when there is one
  (\<^verbatim>\<open>e.response.text\<close>).
\<close>

datatype exn_class =
    RequestException
  | HTTPError
  | ConnectionError
  | Timeout
  | TooManyRedirects
  | RequestsJSONDecodeError
  | AttributeError
  | TypeError
  | KeyError
  | ValueError
  | OtherException

datatype exn = Exn (exn_class_of: exn_class) (exn_str: string) (exn_response_text: "string option")

fun is_RequestException :: "exn_class \<Rightarrow> bool" where
  "is_RequestException RequestException = True"
| "is_RequestException HTTPError = True"
| "is_RequestException ConnectionError = True"
| "is_RequestException Timeout = True"
| "is_RequestException TooManyRedirects = True"
| "is_RequestException RequestsJSONDecodeError = True"
| "is_RequestException AttributeError = False"
| "is_RequestException TypeError = False"
| "is_RequestException KeyError = False"
| "is_RequestException ValueError = False"
| "is_RequestException OtherException = False"

definition quoted :: "string \<Rightarrow> string" where
  "quoted s = CHR 0x27 # s @ [CHR 0x27]"

fun type_name :: "json \<Rightarrow> string" where
  "type_name JNull = ''NoneType''"
| "type_name (JBool b) = ''bool''"
| "type_name (JInt i) = ''int''"
| "type_name (JFloat r) = ''float''"
| "type_name (JStr s) = ''str''"
| "type_name (JArr xs) = ''list''"
| "type_name (JObj kvs) = ''dict''"

definition no_attribute :: "json \<Rightarrow> string \<Rightarrow> exn" where
  "no_attribute j a =
     Exn AttributeError (quoted (type_name j) @ '' object has no attribute '' @ quoted a) None"

definition not_iterable :: "json \<Rightarrow> exn" where
  "not_iterable j = Exn TypeError (quoted (type_name j) @ '' object is not iterable'') None"

definition no_membership :: "json \<Rightarrow> exn" where
  "no_membership j =
     Exn TypeError (''argument of type '' @ quoted (type_name j) @ '' is not iterable'') None"

text \<open>Truth value of a Python object, as \<^verbatim>\<open>if x:\<close> and \<^verbatim>\<open>not x\<close> test it.\<close>

fun truthy :: "json \<Rightarrow> bool" where
  "truthy JNull = False"
| "truthy (JBool b) = b"
| "truthy (JInt i) = (i \<noteq> 0)"
| "truthy (JFloat r) = (r \<noteq> 0)"
| "truthy (JStr s) = (s \<noteq> [])"
| "truthy (JArr xs) = (xs \<noteq> [])"
| "truthy (JObj kvs) = (kvs \<noteq> [])"

text \<open>
  \<^verbatim>\<open>x.get(key, default)\<close>: only a dict has the method; on any other value the
  attribute lookup raises \<^verbatim>\<open>AttributeError\<close>.
\<close>

fun dict_get :: "json \<Rightarrow> string \<Rightarrow> json \<Rightarrow> exn + json" where
  "dict_get (JObj kvs) k d = Inr (case map_of kvs k of None \<Rightarrow> d | Some v \<Rightarrow> v)"
| "dict_get JNull k d = Inl (no_attribute JNull ''get'')"
| "dict_get (JBool b) k d = Inl (no_attribute (JBool b) ''get'')"
| "dict_get (JInt i) k d = Inl (no_attribute (JInt i) ''get'')"
| "dict_get (JFloat r) k d = Inl (no_attribute (JFloat r) ''get'')"
| "dict_get (JStr s) k d = Inl (no_attribute (JStr s) ''get'')"
| "dict_get (JArr xs) k d = Inl (no_attribute (JArr xs) ''get'')"

text \<open>
  \<^verbatim>\<open>for x in v\<close>: a list yields its elements, a string its characters, a dict its
  keys; \<^verbatim>\<open>None\<close>, booleans and numbers raise \<^verbatim>\<open>TypeError\<close>.
\<close>

fun py_iter :: "json \<Rightarrow> exn + json list" where
  "py_iter (JArr xs) = Inr xs"
| "py_iter (JStr s) = Inr (map (\<lambda>c. JStr [c]) s)"
| "py_iter (JObj kvs) = Inr (map (\<lambda>kv. JStr (fst kv)) kvs)"
| "py_iter JNull = Inl (not_iterable JNull)"
| "py_iter (JBool b) = Inl (not_iterable (JBool b))"
| "py_iter (JInt i) = Inl (not_iterable (JInt i))"
| "py_iter (JFloat r) = Inl (not_iterable (JFloat r))"

text \<open>\<^verbatim>\<open>str.lower\<close> on ASCII letters (a \<open>char\<close> is a byte).\<close>

definition lower_char :: "char \<Rightarrow> char" where
  "lower_char c =
     (case map_of (zip ''ABCDEFGHIJKLMNOPQRSTUVWXYZ'' ''abcdefghijklmnopqrstuvwxyz'') c of
        None \<Rightarrow> c
      | Some l \<Rightarrow> l)"

definition lower :: "string \<Rightarrow> string" where
  "lower s = map lower_char s"

section \<open>The world outside the script\<close>

text \<open>
  What the script cannot compute is given by an environment: what the \<open>n\<close>-th HTTP
  request of the session does (the requests are counted from 0), what the clock shows
  after \<open>n\<close> requests, and the text that \<^verbatim>\<open>json.dumps\<close> and \<^verbatim>\<open>str\<close> give for
  a value (serialisation is not modelled).  The three library calls in the \<^verbatim>\<open>try\<close>
  of \<^verbatim>\<open>send_message\<close> (\<^verbatim>\<open>requests.post\<close>, \<^verbatim>\<open>raise_for_status\<close>,
  \<^verbatim>\<open>response.json\<close>) together either raise an exception or return the parsed
  body.  A property that holds for every environment holds however the service and the
  network behave.
\<close>

datatype http_outcome = Raised exn | Returned json

record env =
  requests_post :: "nat \<Rightarrow> http_outcome"
  time_time :: "nat \<Rightarrow> real"
  json_dumps :: "json \<Rightarrow> string"
  repr :: "json \<Rightarrow> string"

text \<open>
  The lines the script prints, named after their text, and the requests it posts.  The
  banner of \<^verbatim>\<open>main\<close> and the text of a reply that \<^verbatim>\<open>display_response\<close> prints
  are left out.
\<close>

datatype report =
    ApiRequestFailed string
  | ResponseText string
  | ExecutingTool json
  | UnknownTool json
  | ToolFailed string
  | NoToolUseContent
  | ClaudeWantsTool json
  | ToolInput json
  | ToolExecutionError json
  | SendingToolResult
  | FailedFinalResponse
  | AttemptingRecovery
  | ErrorDuringToolResult string
  | RestoringState
  | StateRecovered
  | ClaudeIsThinking
  | FailedToGetResponse
  | TryReset
  | ErrorOccurred string
  | EndingConversation
  | HistoryReset
  | Newline
  | NoApiKey

datatype event = Printed report | Posted string json

text \<open>
  The state of a session: the list \<^verbatim>\<open>conversation\<close> that \<^verbatim>\<open>main\<close> owns and
  \<^verbatim>\<open>process_tool_use_response\<close> mutates in place, the number of HTTP requests made
  so far, and what was printed and posted, oldest first.
\<close>

record world =
  conversation :: "json list"
  posts :: nat
  log :: "event list"

definition say :: "report \<Rightarrow> world \<Rightarrow> world" where
  "say r w = w\<lparr>log := log w @ [Printed r]\<rparr>"

definition append_turn :: "json \<Rightarrow> world \<Rightarrow> world" where
  "append_turn t w = w\<lparr>conversation := conversation w @ [t]\<rparr>"

definition py_str :: "env \<Rightarrow> json \<Rightarrow> string" where
  "py_str e j = (case j of JStr s \<Rightarrow> s | _ \<Rightarrow> repr e j)"

section \<open>Transport: \<^verbatim>\<open>send_message\<close>\<close>

definition MODEL_ID :: string where
  "MODEL_ID = ''claude-3-7-sonnet-20250219''"

definition TOOLS :: json where
  "TOOLS = JArr [JObj
     [(''name'', JStr ''search_web''),
      (''description'', JStr ''Search the web for information (simulated)''),
      (''input_schema'', JObj
         [(''type'', JStr ''object''),
          (''properties'', JObj
             [(''query'', JObj
                 [(''type'', JStr ''string''),
                  (''description'', JStr ''The search query'')])]),
          (''required'', JArr [JStr ''query''])])]]"

definition payload :: "json list \<Rightarrow> bool \<Rightarrow> json" where
  "payload messages include_tools =
     JObj ([(''model'', JStr MODEL_ID), (''max_tokens'', JInt 1024), (''messages'', JArr messages)]
           @ (if include_tools then [(''tools'', TOOLS)] else []))"

text \<open>
  The \<^verbatim>\<open>try\<close> block posts the payload; a \<^verbatim>\<open>RequestException\<close> is printed (with
  the response text when the exception has a response) and becomes \<^verbatim>\<open>None\<close>;
  any other exception leaves the function.
\<close>

definition send_message ::
  "env \<Rightarrow> string \<Rightarrow> json list \<Rightarrow> bool \<Rightarrow> world \<Rightarrow> (exn + json) \<times> world" where
  "send_message e api_key messages include_tools w =
     (let w1 = w\<lparr>posts := Suc (posts w),
                 log := log w @ [Posted api_key (payload messages include_tools)]\<rparr>
      in case requests_post e (posts w) of
           Returned j \<Rightarrow> (Inr j, w1)
         | Raised x \<Rightarrow>
             if is_RequestException (exn_class_of x) then
               (let w2 = say (ApiRequestFailed (exn_str x)) w1
                in (Inr JNull,
                    (case exn_response_text x of
                       None \<Rightarrow> w2
                     | Some t \<Rightarrow> say (ResponseText t) w2)))
             else (Inl x, w1))"

text \<open>What the \<open>n\<close>-th call of \<^verbatim>\<open>send_message\<close> returns or raises.\<close>

definition reply_at :: "env \<Rightarrow> nat \<Rightarrow> exn + json" where
  "reply_at e n =
     (case requests_post e n of
        Returned j \<Rightarrow> Inr j
      | Raised x \<Rightarrow> if is_RequestException (exn_class_of x) then Inr JNull else Inl x)"

section \<open>Display\<close>

text \<open>
  \<^verbatim>\<open>display_response\<close> only prints, so the model keeps whether it raises.  For a
  text block, \<^verbatim>\<open>"<thinking>" in text\<close> raises \<^verbatim>\<open>TypeError\<close> unless \<^verbatim>\<open>text\<close> is a
  string, a list or a dict; on a string the rest cannot fail (the index 1 after
  the split exists because the tag occurs); on a list or dict that contains both
  tags, \<^verbatim>\<open>text.split\<close> raises \<^verbatim>\<open>AttributeError\<close>.
\<close>

fun display_text :: "json \<Rightarrow> exn + unit" where
  "display_text (JStr s) = Inr ()"
| "display_text (JArr xs) =
     (if JStr ''<thinking>'' \<in> set xs \<and> JStr ''</thinking>'' \<in> set xs
      then Inl (no_attribute (JArr xs) ''split'') else Inr ())"
| "display_text (JObj kvs) =
     (if ''<thinking>'' \<in> fst ` set kvs \<and> ''</thinking>'' \<in> fst ` set kvs
      then Inl (no_attribute (JObj kvs) ''split'') else Inr ())"
| "display_text JNull = Inl (no_membership JNull)"
| "display_text (JBool b) = Inl (no_membership (JBool b))"
| "display_text (JInt i) = Inl (no_membership (JInt i))"
| "display_text (JFloat r) = Inl (no_membership (JFloat r))"

definition display_block :: "json \<Rightarrow> exn + unit" where
  "display_block content =
     (case dict_get content ''type'' JNull of
        Inl x \<Rightarrow> Inl x
      | Inr ty \<Rightarrow>
          if ty = JStr ''text'' then
            (case dict_get content ''text'' (JStr []) of
               Inl x \<Rightarrow> Inl x
             | Inr t \<Rightarrow> display_text t)
          else Inr ())"

fun display_blocks :: "json list \<Rightarrow> exn + unit" where
  "display_blocks [] = Inr ()"
| "display_blocks (content # rest) =
     (case display_block content of Inl x \<Rightarrow> Inl x | Inr u \<Rightarrow> display_blocks rest)"

definition display_response :: "json \<Rightarrow> exn + unit" where
  "display_response response_data =
     (case dict_get response_data ''content'' (JArr []) of
        Inl x \<Rightarrow> Inl x
      | Inr c \<Rightarrow> (case py_iter c of Inl x \<Rightarrow> Inl x | Inr blocks \<Rightarrow> display_blocks blocks))"

section \<open>Tool executor: \<^verbatim>\<open>search_web\<close> and \<^verbatim>\<open>execute_tool\<close>\<close>

text \<open>
  \<^verbatim>\<open>search_web\<close> reads \<^verbatim>\<open>params.get("query", "")\<close>, which raises when the
  parameters are not a dict, and returns a dict of four keys.  The clock is read at
  index \<open>n\<close>.
\<close>

definition search_result :: "string \<Rightarrow> string \<Rightarrow> json" where
  "search_result title snippet = JObj [(''title'', JStr title), (''snippet'', JStr snippet)]"

definition search_web :: "env \<Rightarrow> nat \<Rightarrow> json \<Rightarrow> exn + dict" where
  "search_web e n params =
     (case dict_get params ''query'' (JStr []) of
        Inl x \<Rightarrow> Inl x
      | Inr query \<Rightarrow>
          (let q = py_str e query;
               results =
                 [search_result (''Result 1 for '' @ q)
                    (''This is a simulated search result for '' @ quoted q
                     @ ''. It contains some relevant information about the topic.''),
                  search_result (''Result 2 for '' @ q)
                    (''Another simulated result related to '' @ quoted q
                     @ ''. This would typically come from a search engine.''),
                  search_result (''Result 3 for '' @ q)
                    (''A third simulated search result for '' @ quoted q
                     @ ''. In a real implementation, this would contain actual web search results.'')]
           in Inr [(''query'', query),
                   (''results'', JArr results),
                   (''search_time'', JFloat (time_time e n)),
                   (''result_count'', JInt (int (length results)))]))"

text \<open>
  \<^verbatim>\<open>execute_tool\<close> dispatches on the tool name inside a \<^verbatim>\<open>try\<close> whose
  \<^verbatim>\<open>except Exception\<close> turns an exception of the handler into a dict with the key
  \<^verbatim>\<open>error\<close>.  The handler bound to the name \<^verbatim>\<open>search_web\<close> is a parameter of
  \<open>execute_tool_with\<close>, so that a property can be stated for every handler; the
  script's executor is the instance \<open>execute_tool\<close>.  A handler gets the index at
  which it reads the clock, and the tool input.
\<close>

type_synonym handler = "nat \<Rightarrow> json \<Rightarrow> exn + dict"

definition execute_tool_with ::
  "handler \<Rightarrow> env \<Rightarrow> json \<Rightarrow> json \<Rightarrow> world \<Rightarrow> (exn + dict) \<times> world" where
  "execute_tool_with h e tool_name tool_input w =
     (let w1 = say (ExecutingTool tool_name) w
      in case (if tool_name = JStr ''search_web'' then (h (posts w) tool_input, w1)
               else (Inr [(''error'', JStr (''Unknown tool: '' @ py_str e tool_name))],
                     say (UnknownTool tool_name) w1)) of
           (Inr d, w2) \<Rightarrow> (Inr d, w2)
         | (Inl x, w2) \<Rightarrow>
             (let error_message =
                    ''Error executing tool '' @ py_str e tool_name @ '': '' @ exn_str x
              in (Inr [(''error'', JStr error_message)], say (ToolFailed error_message) w2)))"

definition execute_tool ::
  "env \<Rightarrow> json \<Rightarrow> json \<Rightarrow> world \<Rightarrow> (exn + dict) \<times> world" where
  "execute_tool e = execute_tool_with (search_web e) e"

section \<open>Orchestrator: \<^verbatim>\<open>process_tool_use_response\<close>\<close>

definition user_message :: "string \<Rightarrow> json" where
  "user_message user_input = JObj [(''role'', JStr ''user''), (''content'', JStr user_input)]"

definition assistant_message :: "json \<Rightarrow> json" where
  "assistant_message c = JObj [(''role'', JStr ''assistant''), (''content'', c)]"

definition tool_result_message :: "json \<Rightarrow> string \<Rightarrow> bool \<Rightarrow> json" where
  "tool_result_message tool_id content is_error =
     JObj [(''role'', JStr ''user''),
           (''content'', JArr [JObj [(''type'', JStr ''tool_result''),
                                     (''tool_use_id'', tool_id),
                                     (''content'', JStr content),
                                     (''is_error'', JBool is_error)]])]"

text \<open>Lines 140 to 144: the first block whose type is \<^verbatim>\<open>tool_use\<close>, or \<^verbatim>\<open>None\<close>.\<close>

fun find_tool_use :: "json list \<Rightarrow> exn + json" where
  "find_tool_use [] = Inr JNull"
| "find_tool_use (content # rest) =
     (case dict_get content ''type'' JNull of
        Inl x \<Rightarrow> Inl x
      | Inr ty \<Rightarrow> if ty = JStr ''tool_use'' then Inr content else find_tool_use rest)"

text \<open>
  The recovery loop \<^verbatim>\<open>while len(conversation) > len(conversation_copy):
  conversation.pop()\<close>.
\<close>

function restore_conversation :: "json list \<Rightarrow> json list \<Rightarrow> json list" where
  "restore_conversation conversation_copy conv =
     (if length conv > length conversation_copy
      then restore_conversation conversation_copy (butlast conv) else conv)"
  by pat_completeness auto
termination
  by (relation "measure (\<lambda>(conversation_copy, conv). length conv)") auto

declare restore_conversation.simps [simp del]

definition recover :: "json list \<Rightarrow> world \<Rightarrow> world" where
  "recover conversation_copy w =
     say StateRecovered
       (w\<lparr>conversation := restore_conversation conversation_copy (conversation w)\<rparr>)"

text \<open>
  Lines 199 to 234: the follow-up call and its two recovery paths.  A reply that
  is false as a truth value (\<^verbatim>\<open>None\<close> above all) takes the \<^verbatim>\<open>else\<close> branch; an
  exception of \<^verbatim>\<open>send_message\<close>, of \<^verbatim>\<open>final_response.get\<close> or of
  \<^verbatim>\<open>display_response\<close> takes the \<^verbatim>\<open>except\<close> branch.
\<close>

definition on_exception :: "json list \<Rightarrow> exn \<Rightarrow> world \<Rightarrow> (exn + json) \<times> world" where
  "on_exception conversation_copy x w =
     (Inr JNull,
      recover conversation_copy (say RestoringState (say (ErrorDuringToolResult (exn_str x)) w)))"

definition send_tool_result ::
  "env \<Rightarrow> string \<Rightarrow> json list \<Rightarrow> world \<Rightarrow> (exn + json) \<times> world" where
  "send_tool_result e api_key conversation_copy w =
     (case send_message e api_key (conversation w) True w of
        (Inl x, w1) \<Rightarrow> on_exception conversation_copy x w1
      | (Inr final_response, w1) \<Rightarrow>
          if truthy final_response then
            (case dict_get final_response ''content'' (JArr []) of
               Inl x \<Rightarrow> on_exception conversation_copy x w1
             | Inr c \<Rightarrow>
                 (let w2 = append_turn (assistant_message c) w1
                  in case display_response final_response of
                       Inl x \<Rightarrow> on_exception conversation_copy x w2
                     | Inr u \<Rightarrow> (Inr final_response, w2)))
          else
            (Inr final_response,
             recover conversation_copy (say AttemptingRecovery (say FailedFinalResponse w1))))"

text \<open>
  Lines 155 to 197: the checkpoint, the invocation read from the block, the tool,
  and the two turns appended before the follow-up call.
\<close>

definition run_tool ::
  "handler \<Rightarrow> env \<Rightarrow> string \<Rightarrow> json \<Rightarrow> json \<Rightarrow> world \<Rightarrow> (exn + json) \<times> world" where
  "run_tool h e api_key c tool_use w =
     (let conversation_copy = conversation w
      in case dict_get tool_use ''name'' JNull of
           Inl x \<Rightarrow> (Inl x, w)
         | Inr tool_name \<Rightarrow>
         (case dict_get tool_use ''input'' (JObj []) of
           Inl x \<Rightarrow> (Inl x, w)
         | Inr tool_input \<Rightarrow>
         (case dict_get tool_use ''id'' JNull of
           Inl x \<Rightarrow> (Inl x, w)
         | Inr tool_id \<Rightarrow>
         (case execute_tool_with h e tool_name tool_input
                 (say (ToolInput tool_input) (say (ClaudeWantsTool tool_name) w)) of
           (Inl x, w2) \<Rightarrow> (Inl x, w2)
         | (Inr tool_result, w2) \<Rightarrow>
             (let is_error = (map_of tool_result ''error'' \<noteq> None);
                  w3 = (case map_of tool_result ''error'' of
                          None \<Rightarrow> w2
                        | Some v \<Rightarrow> say (ToolExecutionError v) w2);
                  w4 = append_turn (assistant_message c) w3;
                  w5 = append_turn
                         (tool_result_message tool_id (json_dumps e (JObj tool_result)) is_error)
                         w4
              in send_tool_result e api_key conversation_copy (say SendingToolResult w5))))))"

definition process_tool_use_response_with ::
  "handler \<Rightarrow> env \<Rightarrow> string \<Rightarrow> json \<Rightarrow> world \<Rightarrow> (exn + json) \<times> world" where
  "process_tool_use_response_with h e api_key response_data w =
     (case dict_get response_data ''content'' (JArr []) of
        Inl x \<Rightarrow> (Inl x, w)
      | Inr c \<Rightarrow>
          (case py_iter c of
             Inl x \<Rightarrow> (Inl x, w)
           | Inr blocks \<Rightarrow>
               (case find_tool_use blocks of
                  Inl x \<Rightarrow> (Inl x, w)
                | Inr tool_use \<Rightarrow>
                    if \<not> truthy tool_use then
                      (Inr JNull, append_turn (assistant_message c) (say NoToolUseContent w))
                    else run_tool h e api_key c tool_use w)))"

definition process_tool_use_response ::
  "env \<Rightarrow> string \<Rightarrow> json \<Rightarrow> world \<Rightarrow> (exn + json) \<times> world" where
  "process_tool_use_response e = process_tool_use_response_with (search_web e) e"

section \<open>The input loop of \<^verbatim>\<open>main\<close>\<close>

datatype control = Continue | Break

text \<open>Lines 285 to 316, the body of the \<^verbatim>\<open>try\<close> of one user-input cycle.\<close>

definition try_body :: "env \<Rightarrow> string \<Rightarrow> string \<Rightarrow> world \<Rightarrow> (exn + unit) \<times> world" where
  "try_body e api_key user_input w =
     (let w1 = say ClaudeIsThinking (append_turn (user_message user_input) w)
      in case send_message e api_key (conversation w1) True w1 of
           (Inl x, w2) \<Rightarrow> (Inl x, w2)
         | (Inr response_data, w2) \<Rightarrow>
             if \<not> truthy response_data then
               (Inr (), say TryReset (say FailedToGetResponse w2))
             else
               (case dict_get response_data ''stop_reason'' JNull of
                  Inl x \<Rightarrow> (Inl x, w2)
                | Inr stop_reason \<Rightarrow>
                    if stop_reason = JStr ''tool_use'' then
                      (case display_response response_data of
                         Inl x \<Rightarrow> (Inl x, w2)
                       | Inr u \<Rightarrow>
                           (case process_tool_use_response e api_key response_data w2 of
                              (Inl x, w3) \<Rightarrow> (Inl x, w3)
                            | (Inr r, w3) \<Rightarrow> (Inr (), say Newline w3)))
                    else
                      (case display_response response_data of
                         Inl x \<Rightarrow> (Inl x, w2)
                       | Inr u \<Rightarrow>
                           (case dict_get response_data ''content'' (JArr []) of
                              Inl x \<Rightarrow> (Inl x, w2)
                            | Inr c \<Rightarrow>
                                (Inr (), say Newline (append_turn (assistant_message c) w2))))))"

text \<open>One pass of the \<^verbatim>\<open>while True\<close> loop on a line of input.\<close>

definition is_exit :: "string \<Rightarrow> bool" where
  "is_exit user_input = (lower user_input \<in> set [''exit'', ''quit'', ''q''])"

definition is_reset :: "string \<Rightarrow> bool" where
  "is_reset user_input = (lower user_input = ''reset'')"

definition cycle :: "env \<Rightarrow> string \<Rightarrow> string \<Rightarrow> world \<Rightarrow> control \<times> world" where
  "cycle e api_key user_input w =
     (if is_exit user_input then (Break, say EndingConversation w)
      else if is_reset user_input then (Continue, say HistoryReset (w\<lparr>conversation := []\<rparr>))
      else
        (case try_body e api_key user_input w of
           (Inl x, w') \<Rightarrow> (Continue, say TryReset (say (ErrorOccurred (exn_str x)) w'))
         | (Inr u, w') \<Rightarrow> (Continue, w')))"

text \<open>
  The loop over the lines the user types.  When the input ends, \<^verbatim>\<open>input()\<close>
  raises outside the \<^verbatim>\<open>try\<close> and the session stops.
\<close>

fun main_loop :: "env \<Rightarrow> string \<Rightarrow> world \<Rightarrow> string list \<Rightarrow> world" where
  "main_loop e api_key w [] = w"
| "main_loop e api_key w (user_input # rest) =
     (case cycle e api_key user_input w of
        (Break, w') \<Rightarrow> w'
      | (Continue, w') \<Rightarrow> main_loop e api_key w' rest)"

definition session_start :: world where
  "session_start = \<lparr>conversation = [], posts = 0, log = []\<rparr>"

definition main :: "env \<Rightarrow> string option \<Rightarrow> string list \<Rightarrow> world" where
  "main e loaded_key inputs =
     (case loaded_key of
        None \<Rightarrow> say NoApiKey session_start
      | Some api_key \<Rightarrow>
          if api_key = [] then say NoApiKey session_start
          else main_loop e api_key session_start inputs)"

section \<open>Vocabulary of the properties\<close>

text \<open>What \<^verbatim>\<open>send_message\<close> prints on its \<open>n\<close>-th call.\<close>

definition send_message_prints :: "env \<Rightarrow> nat \<Rightarrow> event list" where
  "send_message_prints e n =
     (case requests_post e n of
        Returned j \<Rightarrow> []
      | Raised x \<Rightarrow>
          if is_RequestException (exn_class_of x) then
            Printed (ApiRequestFailed (exn_str x))
            # (case exn_response_text x of None \<Rightarrow> [] | Some t \<Rightarrow> [Printed (ResponseText t)])
          else [])"

text \<open>
  The names of the tools executed, oldest first: \<^verbatim>\<open>execute_tool\<close> prints
  \<^verbatim>\<open>Executing tool: <name>\<close> first on every call.
\<close>

fun executed :: "event list \<Rightarrow> json list" where
  "executed [] = []"
| "executed (Printed (ExecutingTool n) # evs) = n # executed evs"
| "executed (ev # evs) = executed evs"

text \<open>The requests posted, oldest first.\<close>

fun posted :: "event list \<Rightarrow> json list" where
  "posted [] = []"
| "posted (Posted k p # evs) = p # posted evs"
| "posted (ev # evs) = posted evs"

text \<open>A field of a dict, \<^verbatim>\<open>None\<close> when it is missing or the value is no dict.\<close>

definition field :: "json \<Rightarrow> string \<Rightarrow> json" where
  "field j k = (case dict_get j k JNull of Inl x \<Rightarrow> JNull | Inr v \<Rightarrow> v)"

definition is_tool_use_block :: "json \<Rightarrow> bool" where
  "is_tool_use_block b = (dict_get b ''type'' JNull = Inr (JStr ''tool_use''))"

text \<open>The tool-invocation blocks of the content of a reply or of a turn.\<close>

definition tool_use_blocks :: "json \<Rightarrow> json list" where
  "tool_use_blocks c = (case c of JArr blocks \<Rightarrow> filter is_tool_use_block blocks | _ \<Rightarrow> [])"

definition reply_content :: "json \<Rightarrow> json" where
  "reply_content r = (case dict_get r ''content'' (JArr []) of Inl x \<Rightarrow> JArr [] | Inr c \<Rightarrow> c)"

text \<open>The tool-invocation blocks of an assistant turn of the transcript.\<close>

definition invocations :: "json \<Rightarrow> json list" where
  "invocations t =
     (if field t ''role'' = JStr ''assistant'' then tool_use_blocks (field t ''content'') else [])"

text \<open>
  A tool-result turn for the correlation id \<open>i\<close>: a turn of role \<^verbatim>\<open>user\<close> whose
  content holds a \<^verbatim>\<open>tool_result\<close> block with that \<^verbatim>\<open>tool_use_id\<close>.
\<close>

definition answers :: "json \<Rightarrow> json \<Rightarrow> bool" where
  "answers t i =
     (field t ''role'' = JStr ''user'' \<and>
      (case field t ''content'' of
         JArr blocks \<Rightarrow>
           (\<exists>b \<in> set blocks. field b ''type'' = JStr ''tool_result'' \<and> field b ''tool_use_id'' = i)
       | _ \<Rightarrow> False))"

text \<open>
  No orphan tool turn: every tool-invocation block of every assistant turn has, in
  the turn right after, a tool result with its correlation id.
\<close>

fun no_orphans :: "json list \<Rightarrow> bool" where
  "no_orphans [] = True"
| "no_orphans (t # ts) =
     ((\<forall>b \<in> set (invocations t). (case ts of [] \<Rightarrow> False | t' # rest \<Rightarrow> answers t' (field b ''id'')))
      \<and> no_orphans ts)"

text \<open>
  A service that asks for a tool only where the script looks for it: a reply holds a
  tool-invocation block only with the stop reason \<^verbatim>\<open>tool_use\<close>, then it holds one
  block only, and the reply to the next request holds none.
\<close>

definition single_tool_service :: "env \<Rightarrow> bool" where
  "single_tool_service e =
     (\<forall>n r. reply_at e n = Inr r \<and> tool_use_blocks (reply_content r) \<noteq> [] \<longrightarrow>
        field r ''stop_reason'' = JStr ''tool_use'' \<and>
        length (tool_use_blocks (reply_content r)) = 1 \<and>
        (\<forall>r'. reply_at e (Suc n) = Inr r' \<longrightarrow> tool_use_blocks (reply_content r') = []))"

text \<open>
  The arguments \<^verbatim>\<open>tool_use.get('input', {})\<close> of an invocation block, and the dict
  that \<^verbatim>\<open>execute_tool\<close> returns for a name and arguments after \<open>n\<close> requests.
\<close>

definition tool_input_of :: "json \<Rightarrow> json" where
  "tool_input_of b = (case dict_get b ''input'' (JObj []) of Inl x \<Rightarrow> JObj [] | Inr v \<Rightarrow> v)"

definition tool_result_of :: "handler \<Rightarrow> env \<Rightarrow> json \<Rightarrow> json \<Rightarrow> nat \<Rightarrow> dict" where
  "tool_result_of h e tool_name tool_input n =
     (case fst (execute_tool_with h e tool_name tool_input \<lparr>conversation = [], posts = n, log = []\<rparr>) of
        Inl x \<Rightarrow> []
      | Inr d \<Rightarrow> d)"

text \<open>The tool-result turn that answers the invocation block \<open>b\<close> after \<open>n\<close> requests.\<close>

definition tool_result_turn :: "handler \<Rightarrow> env \<Rightarrow> json \<Rightarrow> nat \<Rightarrow> json" where
  "tool_result_turn h e b n =
     (let d = tool_result_of h e (field b ''name'') (tool_input_of b) n
      in tool_result_message (field b ''id'') (json_dumps e (JObj d)) (map_of d ''error'' \<noteq> None))"

text \<open>
  Reading what was sent: the messages of a posted request, and the block of a turn whose
  content is a list of one block (\<^verbatim>\<open>None\<close> for any other turn).
\<close>

definition posted_messages :: "json \<Rightarrow> json list" where
  "posted_messages p = (case field p ''messages'' of JArr ms \<Rightarrow> ms | _ \<Rightarrow> [])"

definition only_block :: "json \<Rightarrow> json" where
  "only_block t = (case field t ''content'' of JArr [blk] \<Rightarrow> blk | _ \<Rightarrow> JNull)"

text \<open>
  A reply of the shape the service documents: a dict whose content is a list of blocks, each
  block a dict, the text of a text block a string.
\<close>

definition well_typed_block :: "json \<Rightarrow> bool" where
  "well_typed_block b =
     (case b of
        JObj kvs \<Rightarrow>
          (if field b ''type'' = JStr ''text''
           then (case map_of kvs ''text'' of None \<Rightarrow> True | Some (JStr s) \<Rightarrow> True | Some v \<Rightarrow> False)
           else True)
      | _ \<Rightarrow> False)"

definition well_typed_reply :: "json \<Rightarrow> bool" where
  "well_typed_reply r =
     (case r of
        JObj kvs \<Rightarrow> (case reply_content r of JArr blocks \<Rightarrow> list_all well_typed_block blocks | _ \<Rightarrow> False)
      | _ \<Rightarrow> False)"

section \<open>Scenarios\<close>

definition text_block :: "string \<Rightarrow> json" where
  "text_block t = JObj [(''type'', JStr ''text''), (''text'', JStr t)]"

definition tool_use_block :: "string \<Rightarrow> string \<Rightarrow> json \<Rightarrow> json" where
  "tool_use_block i n inp =
     JObj [(''type'', JStr ''tool_use''), (''id'', JStr i), (''name'', JStr n), (''input'', inp)]"

definition reply :: "json list \<Rightarrow> string \<Rightarrow> json" where
  "reply blocks stop = JObj [(''content'', JArr blocks), (''stop_reason'', JStr stop)]"

definition connection_refused :: exn where
  "connection_refused = Exn ConnectionError ''connection refused'' None"

text \<open>
  An environment that answers the requests of a session from a script, and refuses
  the connection once the script is used up.
\<close>

definition scripted :: "http_outcome list \<Rightarrow> env" where
  "scripted outcomes =
     \<lparr>requests_post = (\<lambda>n. if n < length outcomes then outcomes ! n else Raised connection_refused),
      time_time = (\<lambda>n. real n),
      json_dumps = (\<lambda>j. ''<json>''),
      repr = (\<lambda>j. ''<repr>'')\<rparr>"

definition cats_request :: json where
  "cats_request =
     reply [tool_use_block ''tu_1'' ''search_web'' (JObj [(''query'', JStr ''cats'')])] ''tool_use''"

definition dogs_request :: json where
  "dogs_request =
     reply [tool_use_block ''tu_2'' ''search_web'' (JObj [(''query'', JStr ''dogs'')])] ''tool_use''"

definition hi_answer :: json where
  "hi_answer = reply [text_block ''hi''] ''end_turn''"

definition bare_tool_use :: json where
  "bare_tool_use = reply [text_block ''let me look that up''] ''tool_use''"

definition two_requests :: json where
  "two_requests =
     reply [text_block ''searching'',
            tool_use_block ''tu_1'' ''search_web'' (JObj [(''query'', JStr ''cats'')]),
            tool_use_block ''tu_2'' ''search_web'' (JObj [(''query'', JStr ''dogs'')])] ''tool_use''"

definition calculator_request :: json where
  "calculator_request = reply [tool_use_block ''tu_9'' ''calculator'' (JObj [])] ''tool_use''"

text \<open>A handler that completes and reports \<^verbatim>\<open>error: none\<close> in its result.\<close>

definition verbose_tool :: handler where
  "verbose_tool n params = Inr [(''answer'', JInt 42), (''error'', JStr ''none'')]"

definition bad_json :: exn where
  "bad_json = Exn ValueError ''Expecting value: line 1 column 1 (char 0)'' None"

definition truncated_request :: json where
  "truncated_request =
     reply [tool_use_block ''tu_3'' ''search_web'' (JObj [(''query'', JStr ''birds'')])] ''max_tokens''"

text \<open>What \<^verbatim>\<open>search_web\<close> returns for the query \<^verbatim>\<open>cats\<close> at the time \<open>t\<close>.\<close>

definition cats_result :: "real \<Rightarrow> dict" where
  "cats_result t =
     [(''query'', JStr ''cats''),
      (''results'', JArr
         [search_result ''Result 1 for cats''
            (''This is a simulated search result for '' @ quoted ''cats''
             @ ''. It contains some relevant information about the topic.''),
          search_result ''Result 2 for cats''
            (''Another simulated result related to '' @ quoted ''cats''
             @ ''. This would typically come from a search engine.''),
          search_result ''Result 3 for cats''
            (''A third simulated search result for '' @ quoted ''cats''
             @ ''. In a real implementation, this would contain actual web search results.'')]),
      (''search_time'', JFloat t),
      (''result_count'', JInt 3)]"

text \<open>The handler of the script, on the environment that refuses every connection.\<close>

definition search_web_now :: handler where
  "search_web_now = search_web (scripted [])"

section \<open>Basic facts\<close>

lemma say_simps [simp]:
  "conversation (say r w) = conversation w"
  "posts (say r w) = posts w"
  "log (say r w) = log w @ [Printed r]"
  by (simp_all add: say_def)

lemma append_turn_simps [simp]:
  "conversation (append_turn t w) = conversation w @ [t]"
  "posts (append_turn t w) = posts w"
  "log (append_turn t w) = log w"
  by (simp_all add: append_turn_def)

lemma restore_conversation_take:
  "restore_conversation cc conv = take (length cc) conv"
proof (induction cc conv rule: restore_conversation.induct)
  case (1 cc conv)
  show ?case
  proof (cases "length conv > length cc")
    case True
    then have "restore_conversation cc conv = restore_conversation cc (butlast conv)"
      by (simp add: restore_conversation.simps [of cc conv])
    also have "\<dots> = take (length cc) (butlast conv)"
      using True "1.IH" by simp
    also have "\<dots> = take (length cc) conv"
      using True by (simp add: take_butlast)
    finally show ?thesis .
  next
    case False
    then show ?thesis
      by (simp add: restore_conversation.simps [of cc conv])
  qed
qed

lemma restore_conversation_append [simp]:
  "restore_conversation cc (cc @ added) = cc"
  by (simp add: restore_conversation_take)

lemma recover_simps [simp]:
  "conversation (recover cc w) = restore_conversation cc (conversation w)"
  "posts (recover cc w) = posts w"
  "log (recover cc w) = log w @ [Printed StateRecovered]"
  by (simp_all add: recover_def)

lemma send_message_eq:
  "send_message e k m b w =
     (reply_at e (posts w),
      w\<lparr>posts := Suc (posts w),
        log := log w @ Posted k (payload m b) # send_message_prints e (posts w)\<rparr>)"
  by (simp add: send_message_def reply_at_def send_message_prints_def say_def Let_def
           split: http_outcome.split option.split)

lemma executed_append [simp]: "executed (xs @ ys) = executed xs @ executed ys"
  by (induction xs rule: executed.induct) simp_all

lemma posted_append [simp]: "posted (xs @ ys) = posted xs @ posted ys"
  by (induction xs rule: posted.induct) simp_all

lemma executed_send_message_prints [simp]: "executed (send_message_prints e n) = []"
  by (simp add: send_message_prints_def split: http_outcome.split option.split)

lemma posted_send_message_prints [simp]: "posted (send_message_prints e n) = []"
  by (simp add: send_message_prints_def split: http_outcome.split option.split)

lemma map_of_error_iff: "(map_of d ''error'' \<noteq> None) = (''error'' \<in> fst ` set d)"
  by (simp add: map_of_eq_None_iff)

lemma map_of_error_ex: "(\<exists>y. map_of d ''error'' = Some y) = (''error'' \<in> fst ` set d)"
  using map_of_error_iff [of d] by simp

section \<open>The executor returns a dict\<close>

lemma execute_tool_with_fst:
  "fst (execute_tool_with h e tool_name tool_input w) =
     Inr (tool_result_of h e tool_name tool_input (posts w))"
  by (simp add: execute_tool_with_def tool_result_of_def Let_def split: sum.split)

lemma execute_tool_with_snd [simp]:
  "conversation (snd (execute_tool_with h e tool_name tool_input w)) = conversation w"
  "posts (snd (execute_tool_with h e tool_name tool_input w)) = posts w"
  "executed (log (snd (execute_tool_with h e tool_name tool_input w))) =
     executed (log w) @ [tool_name]"
  "posted (log (snd (execute_tool_with h e tool_name tool_input w))) = posted (log w)"
  by (simp_all add: execute_tool_with_def Let_def split: sum.split)

lemma execute_tool_with_eq:
  "execute_tool_with h e tool_name tool_input w =
     (Inr (tool_result_of h e tool_name tool_input (posts w)),
      snd (execute_tool_with h e tool_name tool_input w))"
  by (metis execute_tool_with_fst prod.collapse)

section \<open>The follow-up call\<close>

lemma display_response_content:
  "display_response r = Inr () \<Longrightarrow> dict_get r ''content'' (JArr []) = Inr (reply_content r)"
  by (simp add: display_response_def reply_content_def split: sum.splits)

lemma on_exception_simps [simp]:
  "fst (on_exception cc x w) = Inr JNull"
  "conversation (snd (on_exception cc x w)) = restore_conversation cc (conversation w)"
  "posts (snd (on_exception cc x w)) = posts w"
  "executed (log (snd (on_exception cc x w))) = executed (log w)"
  "posted (log (snd (on_exception cc x w))) = posted (log w)"
  by (simp_all add: on_exception_def)

lemma send_tool_result_accepted:
  assumes "reply_at e (posts w) = Inr r" and "truthy r" and "display_response r = Inr ()"
  shows "send_tool_result e k cc w =
           (Inr r,
            w\<lparr>conversation := conversation w @ [assistant_message (reply_content r)],
              posts := Suc (posts w),
              log := log w @ Posted k (payload (conversation w) True)
                       # send_message_prints e (posts w)\<rparr>)"
  using assms
  by (simp add: send_tool_result_def send_message_eq display_response_content append_turn_def)

lemma send_tool_result_none:
  assumes "reply_at e (posts w) = Inr j" and "\<not> truthy j"
  shows "send_tool_result e k cc w =
           (Inr j,
            w\<lparr>conversation := restore_conversation cc (conversation w),
              posts := Suc (posts w),
              log := log w @ Posted k (payload (conversation w) True)
                       # send_message_prints e (posts w)
                       @ [Printed FailedFinalResponse, Printed AttemptingRecovery,
                          Printed StateRecovered]\<rparr>)"
  using assms
  by (simp add: send_tool_result_def send_message_eq recover_def say_def)

lemma send_tool_result_snd [simp]:
  "posts (snd (send_tool_result e k cc w)) = Suc (posts w)"
  "executed (log (snd (send_tool_result e k cc w))) = executed (log w)"
  "posted (log (snd (send_tool_result e k cc w))) = posted (log w) @ [payload (conversation w) True]"
  by (simp_all add: send_tool_result_def send_message_eq Let_def split: sum.split)

lemma send_tool_result_fst: "\<exists>j. fst (send_tool_result e k cc w) = Inr j"
  by (simp add: send_tool_result_def send_message_eq Let_def on_exception_def split: sum.split)

lemma send_tool_result_conversation:
  assumes "conversation w = cc @ added"
  shows "conversation (snd (send_tool_result e k cc w)) =
     (case reply_at e (posts w) of
        Inl x \<Rightarrow> cc
      | Inr r \<Rightarrow>
          if truthy r \<and> display_response r = Inr ()
          then cc @ added @ [assistant_message (reply_content r)] else cc)"
proof (cases "reply_at e (posts w)")
  case (Inl x)
  with assms show ?thesis
    by (simp add: send_tool_result_def send_message_eq)
next
  case (Inr r)
  show ?thesis
  proof (cases "truthy r")
    case False
    with Inr assms show ?thesis
      by (simp add: send_tool_result_none)
  next
    case True
    show ?thesis
    proof (cases "display_response r")
      case (Inl x)
      with Inr True assms show ?thesis
        by (simp add: send_tool_result_def send_message_eq Let_def split: sum.split)
    next
      case Inr' : (Inr u)
      with Inr True assms show ?thesis
        by (simp add: send_tool_result_accepted)
    qed
  qed
qed

section \<open>Finding the invocation\<close>

lemma is_tool_use_block_dict:
  "is_tool_use_block b \<Longrightarrow> \<exists>kvs. b = JObj kvs \<and> kvs \<noteq> []"
  by (cases b) (auto simp: is_tool_use_block_def)

lemma is_tool_use_block_truthy: "is_tool_use_block b \<Longrightarrow> truthy b"
  by (auto dest: is_tool_use_block_dict)

lemma display_block_dict: "display_block b = Inr () \<Longrightarrow> \<exists>kvs. b = JObj kvs"
  by (cases b) (simp_all add: display_block_def)

lemma display_blocks_dicts:
  "display_blocks bs = Inr () \<Longrightarrow> \<forall>b \<in> set bs. \<exists>kvs. b = JObj kvs"
proof (induction bs)
  case Nil
  then show ?case by simp
next
  case (Cons b bs)
  from Cons.prems have "display_block b = Inr ()" and "display_blocks bs = Inr ()"
    by (simp_all split: sum.splits)
  with Cons.IH show ?case
    by (auto dest: display_block_dict)
qed

lemma find_tool_use_dicts:
  "\<forall>b \<in> set bs. \<exists>kvs. b = JObj kvs \<Longrightarrow>
     find_tool_use bs = Inr (case filter is_tool_use_block bs of [] \<Rightarrow> JNull | b # later \<Rightarrow> b)"
proof (induction bs)
  case Nil
  then show ?case by simp
next
  case (Cons b bs)
  then obtain kvs where "b = JObj kvs" by auto
  with Cons show ?case
    by (simp add: is_tool_use_block_def)
qed

lemma displayed_blocks:
  assumes "display_response r = Inr ()"
  shows "\<exists>bs. py_iter (reply_content r) = Inr bs \<and> (\<forall>b \<in> set bs. \<exists>kvs. b = JObj kvs)
           \<and> filter is_tool_use_block bs = tool_use_blocks (reply_content r)"
proof -
  from assms obtain bs where it: "py_iter (reply_content r) = Inr bs"
    and disp: "display_blocks bs = Inr ()"
    by (auto simp: display_response_def reply_content_def split: sum.splits)
  have dicts: "\<forall>b \<in> set bs. \<exists>kvs. b = JObj kvs"
    using disp by (rule display_blocks_dicts)
  have "filter is_tool_use_block bs = tool_use_blocks (reply_content r)"
  proof (cases "reply_content r")
    case (JArr xs)
    with it show ?thesis by (simp add: tool_use_blocks_def)
  next
    case (JStr s)
    with it dicts have "s = []" by (cases s) auto
    with it JStr show ?thesis by (simp add: tool_use_blocks_def)
  next
    case (JObj kvs)
    with it dicts have "kvs = []" by (cases kvs) auto
    with it JObj show ?thesis by (simp add: tool_use_blocks_def)
  qed (use it in simp_all)
  with it dicts show ?thesis by blast
qed

lemma process_displayed:
  assumes "display_response r = Inr ()"
  shows "process_tool_use_response_with h e k r w =
           (case tool_use_blocks (reply_content r) of
              [] \<Rightarrow> (Inr JNull,
                     append_turn (assistant_message (reply_content r)) (say NoToolUseContent w))
            | b # later \<Rightarrow> run_tool h e k (reply_content r) b w)"
proof -
  from displayed_blocks [OF assms] obtain bs where it: "py_iter (reply_content r) = Inr bs"
    and dicts: "\<forall>b \<in> set bs. \<exists>kvs. b = JObj kvs"
    and flt: "filter is_tool_use_block bs = tool_use_blocks (reply_content r)"
    by blast
  have found: "find_tool_use bs =
      Inr (case tool_use_blocks (reply_content r) of [] \<Rightarrow> JNull | b # later \<Rightarrow> b)"
    using find_tool_use_dicts [OF dicts] flt by simp
  show ?thesis
  proof (cases "tool_use_blocks (reply_content r)")
    case Nil
    with it found assms show ?thesis
      by (simp add: process_tool_use_response_with_def display_response_content)
  next
    case (Cons b later)
    then have "b \<in> set (filter is_tool_use_block bs)"
      using flt by simp
    then have "truthy b"
      by (simp add: is_tool_use_block_truthy)
    with Cons it found assms show ?thesis
      by (simp add: process_tool_use_response_with_def display_response_content)
  qed
qed

lemma run_tool_eq:
  assumes "is_tool_use_block b"
  shows "\<exists>w'. run_tool h e k c b w = send_tool_result e k (conversation w) w'
           \<and> conversation w' = conversation w @ [assistant_message c, tool_result_turn h e b (posts w)]
           \<and> posts w' = posts w
           \<and> executed (log w') = executed (log w) @ [field b ''name'']
           \<and> posted (log w') = posted (log w)"
proof -
  from is_tool_use_block_dict [OF assms] obtain kvs where b: "b = JObj kvs" by blast
  let ?name = "field b ''name''" and ?input = "tool_input_of b"
  let ?w1 = "say (ToolInput ?input) (say (ClaudeWantsTool ?name) w)"
  let ?d = "tool_result_of h e ?name ?input (posts w)"
  obtain w2 where ex: "execute_tool_with h e ?name ?input ?w1 = (Inr ?d, w2)"
    and w2: "w2 = snd (execute_tool_with h e ?name ?input ?w1)"
    using execute_tool_with_eq [of h e ?name ?input ?w1] by simp
  have w2_simps: "conversation w2 = conversation w" "posts w2 = posts w"
    "executed (log w2) = executed (log w) @ [?name]" "posted (log w2) = posted (log w)"
    unfolding w2 by simp_all
  let ?w3 = "case map_of ?d ''error'' of None \<Rightarrow> w2 | Some v \<Rightarrow> say (ToolExecutionError v) w2"
  let ?w5 = "say SendingToolResult
               (append_turn (tool_result_turn h e b (posts w)) (append_turn (assistant_message c) ?w3))"
  have "run_tool h e k c b w = send_tool_result e k (conversation w) ?w5"
    using b ex
    by (simp add: run_tool_def field_def tool_input_of_def tool_result_turn_def Let_def)
  moreover have "conversation ?w5 = conversation w @ [assistant_message c, tool_result_turn h e b (posts w)]"
    by (simp add: w2_simps split: option.split)
  moreover have "posts ?w5 = posts w"
    by (simp add: w2_simps split: option.split)
  moreover have "executed (log ?w5) = executed (log w) @ [field b ''name'']"
    by (simp add: w2_simps split: option.split)
  moreover have "posted (log ?w5) = posted (log w)"
    by (simp add: w2_simps split: option.split)
  ultimately show ?thesis by blast
qed

section \<open>The paths of a cycle\<close>

lemma field_JStr_dict:
  assumes "field r k = JStr s"
  shows "\<exists>kvs. r = JObj kvs \<and> kvs \<noteq> [] \<and> dict_get r k JNull = Inr (JStr s)"
  using assms by (cases r) (auto simp: field_def no_attribute_def)

lemma reply_at_truthy_prints:
  assumes "reply_at e n = Inr r" and "truthy r"
  shows "send_message_prints e n = []"
  using assms
  by (auto simp: reply_at_def send_message_prints_def split: http_outcome.splits if_splits)

lemma process_tool_use_response_anomaly:
  assumes "display_response r = Inr ()" and "tool_use_blocks (reply_content r) = []"
  shows "process_tool_use_response e k r w =
           (Inr JNull, append_turn (assistant_message (reply_content r)) (say NoToolUseContent w))"
  using assms by (simp add: process_tool_use_response_def process_displayed)

lemma try_body_raise:
  assumes "reply_at e (posts w) = Inl x"
  shows "try_body e k u w =
           (Inl x,
            w\<lparr>conversation := conversation w @ [user_message u],
              posts := Suc (posts w),
              log := log w @ [Printed ClaudeIsThinking,
                              Posted k (payload (conversation w @ [user_message u]) True)]
                       @ send_message_prints e (posts w)\<rparr>)"
  using assms by (simp add: try_body_def send_message_eq say_def append_turn_def)

lemma try_body_none:
  assumes "reply_at e (posts w) = Inr j" and "\<not> truthy j"
  shows "try_body e k u w =
           (Inr (),
            w\<lparr>conversation := conversation w @ [user_message u],
              posts := Suc (posts w),
              log := log w @ [Printed ClaudeIsThinking,
                              Posted k (payload (conversation w @ [user_message u]) True)]
                       @ send_message_prints e (posts w)
                       @ [Printed FailedToGetResponse, Printed TryReset]\<rparr>)"
  using assms by (simp add: try_body_def send_message_eq say_def append_turn_def)

lemma try_body_plain:
  assumes "reply_at e (posts w) = Inr r" and "truthy r"
    and "dict_get r ''stop_reason'' JNull = Inr s" and "s \<noteq> JStr ''tool_use''"
    and "display_response r = Inr ()"
  shows "try_body e k u w =
           (Inr (),
            w\<lparr>conversation := conversation w @ [user_message u, assistant_message (reply_content r)],
              posts := Suc (posts w),
              log := log w @ [Printed ClaudeIsThinking,
                              Posted k (payload (conversation w @ [user_message u]) True),
                              Printed Newline]\<rparr>)"
  using assms
  by (simp add: try_body_def send_message_eq say_def append_turn_def display_response_content
                reply_at_truthy_prints)

lemma try_body_anomaly:
  assumes "reply_at e (posts w) = Inr r" and "field r ''stop_reason'' = JStr ''tool_use''"
    and "display_response r = Inr ()" and "tool_use_blocks (reply_content r) = []"
  shows "try_body e k u w =
           (Inr (),
            w\<lparr>conversation := conversation w @ [user_message u, assistant_message (reply_content r)],
              posts := Suc (posts w),
              log := log w @ [Printed ClaudeIsThinking,
                              Posted k (payload (conversation w @ [user_message u]) True),
                              Printed NoToolUseContent, Printed Newline]\<rparr>)"
proof -
  from field_JStr_dict [OF assms(2)] obtain kvs where "r = JObj kvs" "kvs \<noteq> []"
    and stop: "dict_get r ''stop_reason'' JNull = Inr (JStr ''tool_use'')" by blast
  then have "truthy r" by simp
  with assms stop show ?thesis
    by (simp add: try_body_def send_message_eq process_tool_use_response_anomaly
                  say_def append_turn_def reply_at_truthy_prints)
qed

lemma try_body_tool:
  assumes "reply_at e (posts w) = Inr r" and "field r ''stop_reason'' = JStr ''tool_use''"
    and "display_response r = Inr ()" and "tool_use_blocks (reply_content r) = b # later"
  shows "\<exists>w5. try_body e k u w =
                 (Inr (), say Newline (snd (send_tool_result e k (conversation w @ [user_message u]) w5)))
           \<and> conversation w5 = conversation w @ [user_message u, assistant_message (reply_content r),
                                                  tool_result_turn (search_web e) e b (Suc (posts w))]
           \<and> posts w5 = Suc (posts w)
           \<and> executed (log w5) = executed (log w) @ [field b ''name'']
           \<and> posted (log w5) = posted (log w) @ [payload (conversation w @ [user_message u]) True]"
proof -
  from field_JStr_dict [OF assms(2)] obtain kvs where "r = JObj kvs" "kvs \<noteq> []"
    and stop: "dict_get r ''stop_reason'' JNull = Inr (JStr ''tool_use'')" by blast
  then have truthy: "truthy r" by simp
  let ?w2 = "w\<lparr>conversation := conversation w @ [user_message u],
               posts := Suc (posts w),
               log := log w @ [Printed ClaudeIsThinking,
                               Posted k (payload (conversation w @ [user_message u]) True)]\<rparr>"
  have "b \<in> set (tool_use_blocks (reply_content r))"
    using assms(4) by simp
  then have blk: "is_tool_use_block b"
    by (auto simp: tool_use_blocks_def split: json.splits)
  from run_tool_eq [OF blk, of "search_web e" e k "reply_content r" ?w2]
  obtain w5 where run: "run_tool (search_web e) e k (reply_content r) b ?w2
                          = send_tool_result e k (conversation ?w2) w5"
    and w5: "conversation w5 = conversation ?w2 @ [assistant_message (reply_content r),
                                                    tool_result_turn (search_web e) e b (posts ?w2)]"
      "posts w5 = posts ?w2"
      "executed (log w5) = executed (log ?w2) @ [field b ''name'']"
      "posted (log w5) = posted (log ?w2)"
    by blast
  obtain j w6 where res: "send_tool_result e k (conversation ?w2) w5 = (Inr j, w6)"
    using send_tool_result_fst [of e k "conversation ?w2" w5]
    by (cases "send_tool_result e k (conversation ?w2) w5") auto
  have proc: "process_tool_use_response e k r ?w2 = (Inr j, w6)"
    using assms run res by (simp add: process_tool_use_response_def process_displayed)
  have "try_body e k u w = (Inr (), say Newline w6)"
    using assms(1,3) stop truthy proc
    by (simp add: try_body_def send_message_eq say_def append_turn_def reply_at_truthy_prints)
  with res have "try_body e k u w =
          (Inr (), say Newline (snd (send_tool_result e k (conversation w @ [user_message u]) w5)))"
    by simp
  with w5 show ?thesis by (intro exI [of _ w5]) simp
qed

lemma cycle_eq:
  assumes "\<not> is_exit u" and "\<not> is_reset u"
  shows "cycle e k u w =
           (case try_body e k u w of
              (Inl x, w') \<Rightarrow> (Continue, say TryReset (say (ErrorOccurred (exn_str x)) w'))
            | (Inr v, w') \<Rightarrow> (Continue, w'))"
  using assms by (simp add: cycle_def)

lemma send_message_prints_no_recovery:
  "Printed StateRecovered \<notin> set (send_message_prints e n)"
  by (simp add: send_message_prints_def split: http_outcome.split option.split)

lemma cycle_tool:
  assumes "\<not> is_exit u" and "\<not> is_reset u"
    and "reply_at e (posts w) = Inr r" and "field r ''stop_reason'' = JStr ''tool_use''"
    and "display_response r = Inr ()" and "tool_use_blocks (reply_content r) = b # later"
  shows "\<exists>w5. cycle e k u w =
                 (Continue, say Newline (snd (send_tool_result e k (conversation w @ [user_message u]) w5)))
           \<and> conversation w5 = conversation w @ [user_message u, assistant_message (reply_content r),
                                                  tool_result_turn (search_web e) e b (Suc (posts w))]
           \<and> posts w5 = Suc (posts w)
           \<and> executed (log w5) = executed (log w) @ [field b ''name'']
           \<and> posted (log w5) = posted (log w) @ [payload (conversation w @ [user_message u]) True]"
proof -
  from try_body_tool [OF assms(3-6), of k u] obtain w5
    where "try_body e k u w =
             (Inr (), say Newline (snd (send_tool_result e k (conversation w @ [user_message u]) w5)))"
      and "conversation w5 = conversation w @ [user_message u, assistant_message (reply_content r),
                                                tool_result_turn (search_web e) e b (Suc (posts w))]"
      and "posts w5 = Suc (posts w)"
      and "executed (log w5) = executed (log w) @ [field b ''name'']"
      and "posted (log w5) = posted (log w) @ [payload (conversation w @ [user_message u]) True]"
    by blast
  with assms(1,2) show ?thesis
    by (intro exI [of _ w5]) (simp add: cycle_eq)
qed

lemma display_response_dict:
  "display_response r = Inr () \<Longrightarrow> \<exists>kvs. r = JObj kvs"
  by (cases r) (simp_all add: display_response_def)

lemma field_dict_get: "field (JObj kvs) k' = s \<Longrightarrow> dict_get (JObj kvs) k' JNull = Inr s"
  by (simp add: field_def)

lemma first_tool_use_block:
  assumes "\<forall>x \<in> set pre. \<not> is_tool_use_block x" and "is_tool_use_block b"
  shows "tool_use_blocks (JArr (pre @ b # post)) = b # filter is_tool_use_block post"
  using assms by (simp add: tool_use_blocks_def)

lemma cycle_executed_cases:
  assumes "\<not> is_exit u" and "\<not> is_reset u"
    and "reply_at e (posts w) = Inr r" and "display_response r = Inr ()"
  shows "executed (log (snd (cycle e k u w))) =
           (if field r ''stop_reason'' = JStr ''tool_use''
            then (case tool_use_blocks (reply_content r) of
                    [] \<Rightarrow> executed (log w)
                  | b # later \<Rightarrow> executed (log w) @ [field b ''name''])
            else executed (log w))"
proof (cases "truthy r")
  case False
  with assms have "executed (log (snd (cycle e k u w))) = executed (log w)"
    by (simp add: cycle_eq try_body_none)
  moreover from False have "field r ''stop_reason'' \<noteq> JStr ''tool_use''"
    by (cases r) (auto simp: field_def)
  ultimately show ?thesis by simp
next
  case True
  from display_response_dict [OF assms(4)] obtain kvs where r: "r = JObj kvs" by blast
  show ?thesis
  proof (cases "field r ''stop_reason'' = JStr ''tool_use''")
    case stop: True
    show ?thesis
    proof (cases "tool_use_blocks (reply_content r)")
      case Nil
      with assms stop show ?thesis
        by (simp add: cycle_eq try_body_anomaly)
    next
      case (Cons b later)
      from cycle_tool [OF assms(1-3) stop assms(4) Cons, of k] obtain w5
        where "cycle e k u w =
             (Continue, say Newline (snd (send_tool_result e k (conversation w @ [user_message u]) w5)))"
          and "executed (log w5) = executed (log w) @ [field b ''name'']"
        by blast
      with stop Cons show ?thesis by simp
    qed
  next
    case False
    have "dict_get r ''stop_reason'' JNull = Inr (field r ''stop_reason'')"
      using r by (simp add: field_def)
    from try_body_plain [OF assms(3) True this False assms(4), of k u] assms(1,2) False
    show ?thesis by (simp add: cycle_eq)
  qed
qed

lemma send_message_fst: "fst (send_message e k m b w) = reply_at e (posts w)"
  by (simp add: send_message_eq)

lemma send_tool_result_raise:
  "reply_at e (posts w) = Inl x \<Longrightarrow> fst (send_tool_result e k cc w) = Inr JNull"
  by (simp add: send_tool_result_def send_message_eq)

lemma process_tool:
  assumes "display_response r = Inr ()" and "tool_use_blocks (reply_content r) = b # later"
  shows "\<exists>w5. process_tool_use_response_with h e k r w = send_tool_result e k (conversation w) w5
           \<and> conversation w5 = conversation w @ [assistant_message (reply_content r),
                                                  tool_result_turn h e b (posts w)]
           \<and> posts w5 = posts w
           \<and> executed (log w5) = executed (log w) @ [field b ''name'']
           \<and> posted (log w5) = posted (log w)"
proof -
  have "b \<in> set (tool_use_blocks (reply_content r))"
    using assms(2) by simp
  then have "is_tool_use_block b"
    by (auto simp: tool_use_blocks_def split: json.splits)
  from run_tool_eq [OF this, of h e k "reply_content r" w] assms show ?thesis
    by (simp add: process_displayed)
qed

lemma tool_result_of_search_web:
  "h n i = Inr d \<Longrightarrow> tool_result_of h e (JStr ''search_web'') i n = d"
  by (simp add: tool_result_of_def execute_tool_with_def Let_def)

section \<open>The transcript after a cycle\<close>

lemma no_orphans_append:
  "no_orphans xs \<Longrightarrow> no_orphans ys \<Longrightarrow> no_orphans (xs @ ys)"
proof (induction xs)
  case Nil
  then show ?case by simp
next
  case (Cons t ts)
  show ?case
  proof (cases ts)
    case Nil
    with Cons.prems show ?thesis by (cases ys) auto
  next
    case (Cons t' rest)
    with Cons.prems Cons.IH show ?thesis by simp
  qed
qed

lemma invocations_user_message [simp]: "invocations (user_message u) = []"
  by (simp add: invocations_def user_message_def field_def)

lemma invocations_assistant_message [simp]:
  "invocations (assistant_message c) = tool_use_blocks c"
  by (simp add: invocations_def assistant_message_def field_def)

lemma invocations_tool_result_message [simp]:
  "invocations (tool_result_message i c f) = []"
  by (simp add: invocations_def tool_result_message_def field_def)

lemma answers_tool_result_message [simp]: "answers (tool_result_message i c f) i"
  by (simp add: answers_def tool_result_message_def field_def)

lemma try_body_undisplayable:
  assumes "reply_at e (posts w) = Inr r" and "display_response r = Inl x"
  shows "conversation (snd (try_body e k u w)) = conversation w @ [user_message u]"
proof (cases "truthy r")
  case False
  with assms show ?thesis by (simp add: try_body_none)
next
  case True
  show ?thesis
  proof (cases "dict_get r ''stop_reason'' JNull")
    case (Inl y)
    with assms True show ?thesis
      by (simp add: try_body_def send_message_eq)
  next
    case (Inr s)
    with assms True show ?thesis
      by (simp add: try_body_def send_message_eq Let_def)
  qed
qed

lemma cycle_conversation:
  assumes "\<not> is_exit u" and "\<not> is_reset u"
  shows "conversation (snd (cycle e k u w)) = conversation (snd (try_body e k u w))"
  using assms by (simp add: cycle_eq split: prod.split sum.split)

lemma cycle_conversation_cases:
  assumes "\<not> is_exit u" and "\<not> is_reset u"
  shows "conversation (snd (cycle e k u w)) = conversation w @ [user_message u]
       \<or> (\<exists>r. reply_at e (posts w) = Inr r
              \<and> (field r ''stop_reason'' \<noteq> JStr ''tool_use'' \<or> tool_use_blocks (reply_content r) = [])
              \<and> conversation (snd (cycle e k u w)) =
                  conversation w @ [user_message u, assistant_message (reply_content r)])
       \<or> (\<exists>r b later r2. reply_at e (posts w) = Inr r
              \<and> tool_use_blocks (reply_content r) = b # later
              \<and> reply_at e (Suc (posts w)) = Inr r2
              \<and> conversation (snd (cycle e k u w)) =
                  conversation w @ [user_message u, assistant_message (reply_content r),
                                    tool_result_turn (search_web e) e b (Suc (posts w)),
                                    assistant_message (reply_content r2)])"
proof (cases "reply_at e (posts w)")
  case (Inl x)
  with assms show ?thesis
    by (simp add: cycle_conversation try_body_raise)
next
  case (Inr r)
  show ?thesis
  proof (cases "display_response r")
    case (Inl x)
    with Inr assms show ?thesis
      by (simp add: cycle_conversation try_body_undisplayable)
  next
    case disp: (Inr v)
    then have disp: "display_response r = Inr ()" by simp
    show ?thesis
    proof (cases "truthy r")
      case False
      with Inr assms show ?thesis
        by (simp add: cycle_conversation try_body_none)
    next
      case True
      from display_response_dict [OF disp] obtain kvs where r: "r = JObj kvs" by blast
      show ?thesis
      proof (cases "field r ''stop_reason'' = JStr ''tool_use''")
        case False
        have "dict_get r ''stop_reason'' JNull = Inr (field r ''stop_reason'')"
          using r by (simp add: field_def)
        from try_body_plain [OF Inr True this False disp, of k u] assms Inr False
        show ?thesis by (simp add: cycle_conversation)
      next
        case stop: True
        show ?thesis
        proof (cases "tool_use_blocks (reply_content r)")
          case Nil
          with assms Inr stop disp show ?thesis
            by (simp add: cycle_conversation try_body_anomaly)
        next
          case (Cons b later)
          from cycle_tool [OF assms Inr stop disp Cons, of k] obtain w5
            where c: "cycle e k u w =
                 (Continue, say Newline (snd (send_tool_result e k (conversation w @ [user_message u]) w5)))"
              and w5: "conversation w5 = conversation w @ [user_message u, assistant_message (reply_content r),
                                                tool_result_turn (search_web e) e b (Suc (posts w))]"
                "posts w5 = Suc (posts w)"
            by blast
          have split: "conversation w5 = (conversation w @ [user_message u])
                  @ [assistant_message (reply_content r),
                     tool_result_turn (search_web e) e b (Suc (posts w))]"
            using w5 by simp
          note conv = send_tool_result_conversation [OF split, of e k]
          show ?thesis
          proof (cases "reply_at e (Suc (posts w))")
            case (Inl x)
            with c conv w5 show ?thesis by simp
          next
            case r2: (Inr r2)
            show ?thesis
            proof (cases "truthy r2 \<and> display_response r2 = Inr ()")
              case False
              with c conv w5 r2 show ?thesis by auto
            next
              case True
              with c conv w5 r2 have "conversation (snd (cycle e k u w)) =
                  conversation w @ [user_message u, assistant_message (reply_content r),
                                    tool_result_turn (search_web e) e b (Suc (posts w)),
                                    assistant_message (reply_content r2)]"
                by simp
              with Inr Cons r2 show ?thesis by blast
            qed
          qed
        qed
      qed
    qed
  qed
qed

lemma cycle_no_orphans:
  assumes "single_tool_service e" and "no_orphans (conversation w)"
  shows "no_orphans (conversation (snd (cycle e k u w)))"
proof (cases "is_exit u \<or> is_reset u")
  case True
  with assms(2) show ?thesis
    by (auto simp: cycle_def)
next
  case False
  then have cmd: "\<not> is_exit u" "\<not> is_reset u" by simp_all
  from cycle_conversation_cases [OF cmd, of e k w]
  consider
    (user) "conversation (snd (cycle e k u w)) = conversation w @ [user_message u]"
  | (answer) r where "reply_at e (posts w) = Inr r"
      "field r ''stop_reason'' \<noteq> JStr ''tool_use'' \<or> tool_use_blocks (reply_content r) = []"
      "conversation (snd (cycle e k u w)) =
         conversation w @ [user_message u, assistant_message (reply_content r)]"
  | (tool) r b later r2 where "reply_at e (posts w) = Inr r"
      "tool_use_blocks (reply_content r) = b # later"
      "reply_at e (Suc (posts w)) = Inr r2"
      "conversation (snd (cycle e k u w)) =
         conversation w @ [user_message u, assistant_message (reply_content r),
                           tool_result_turn (search_web e) e b (Suc (posts w)),
                           assistant_message (reply_content r2)]"
    by blast
  then show ?thesis
  proof cases
    case user
    with assms(2) show ?thesis
      by (simp add: no_orphans_append)
  next
    case answer
    have "tool_use_blocks (reply_content r) = []"
    proof (rule ccontr)
      assume "tool_use_blocks (reply_content r) \<noteq> []"
      with assms(1) answer(1) have "field r ''stop_reason'' = JStr ''tool_use''"
        unfolding single_tool_service_def by blast
      with answer(2) \<open>tool_use_blocks (reply_content r) \<noteq> []\<close> show False by simp
    qed
    then have "no_orphans [user_message u, assistant_message (reply_content r)]"
      by simp
    with assms(2) answer(3) show ?thesis
      by (simp add: no_orphans_append)
  next
    case tool
    from assms(1) tool(1,2) have one: "length (tool_use_blocks (reply_content r)) = 1"
      and next_reply: "\<forall>r'. reply_at e (Suc (posts w)) = Inr r' \<longrightarrow> tool_use_blocks (reply_content r') = []"
      unfolding single_tool_service_def by (metis list.distinct(1))+
    from one tool(2) have "later = []" by simp
    moreover from next_reply tool(3) have "tool_use_blocks (reply_content r2) = []" by blast
    ultimately have "no_orphans [user_message u, assistant_message (reply_content r),
                           tool_result_turn (search_web e) e b (Suc (posts w)),
                           assistant_message (reply_content r2)]"
      using tool(2) by (simp add: tool_result_turn_def Let_def)
    with assms(2) tool(4) show ?thesis
      by (simp add: no_orphans_append)
  qed
qed

lemma main_loop_no_orphans:
  assumes "single_tool_service e"
  shows "no_orphans (conversation w) \<Longrightarrow> no_orphans (conversation (main_loop e k w inputs))"
proof (induction inputs arbitrary: w)
  case Nil
  then show ?case by simp
next
  case (Cons u rest)
  obtain c w' where step: "cycle e k u w = (c, w')"
    by (cases "cycle e k u w")
  from cycle_no_orphans [OF assms Cons.prems, of k u] step
  have inv: "no_orphans (conversation w')" by simp
  show ?case
  proof (cases c)
    case Continue
    with step Cons.IH [OF inv] show ?thesis by simp
  next
    case Break
    with step inv show ?thesis by simp
  qed
qed

section \<open>One tool and two requests at most in a cycle\<close>




section \<open>The fields of the tool-result turn\<close>

lemma posted_messages_payload [simp]: "posted_messages (payload ms b) = ms"
  by (simp add: posted_messages_def payload_def field_def)

lemma tool_result_turn_fields:
  "\<exists>blk. field (tool_result_turn h e b n) ''role'' = JStr ''user''
     \<and> field (tool_result_turn h e b n) ''content'' = JArr [blk]
     \<and> field blk ''type'' = JStr ''tool_result''
     \<and> field blk ''tool_use_id'' = field b ''id''
     \<and> field blk ''content'' =
           JStr (json_dumps e (JObj (tool_result_of h e (field b ''name'') (tool_input_of b) n)))
     \<and> field blk ''is_error'' =
           JBool (''error'' \<in> fst ` set (tool_result_of h e (field b ''name'') (tool_input_of b) n))"
  by (simp add: tool_result_turn_def tool_result_message_def Let_def map_of_error_ex)
     (simp add: field_def map_of_error_ex)

lemma only_block_single: "field t ''content'' = JArr [blk] \<Longrightarrow> only_block t = blk"
  by (simp add: only_block_def)

section \<open>Replies of the documented shape\<close>

text \<open>
  The properties below ask of a reply that \<^verbatim>\<open>display_response\<close> prints it without
  raising.  Every reply of the documented shape is such a reply.
\<close>

lemma well_typed_block_displays:
  "well_typed_block b \<Longrightarrow> display_block b = Inr ()"
  by (cases b)
     (auto simp: well_typed_block_def display_block_def field_def
           split: option.splits json.splits if_splits)

lemma well_typed_blocks_display:
  "list_all well_typed_block blocks \<Longrightarrow> display_blocks blocks = Inr ()"
  by (induction blocks) (simp_all add: well_typed_block_displays)

lemma well_typed_reply_displays:
  "well_typed_reply r \<Longrightarrow> display_response r = Inr ()"
  by (cases r)
     (auto simp: well_typed_reply_def display_response_def reply_content_def
                 well_typed_blocks_display
           split: json.splits option.splits)

section \<open>Facts about the scenarios\<close>

lemmas scenario_defs =
  scripted_def session_start_def connection_refused_def reply_at_def send_message_prints_def
  reply_def text_block_def tool_use_block_def cats_request_def dogs_request_def hi_answer_def
  bare_tool_use_def two_requests_def

lemmas reading_defs =
  field_def reply_content_def tool_use_blocks_def is_tool_use_block_def
  display_response_def display_block_def tool_input_of_def

lemma not_commands:
  "\<not> is_exit ''hello''" "\<not> is_reset ''hello''"
  "\<not> is_exit ''search for cats''" "\<not> is_reset ''search for cats''"
  by (simp_all add: is_exit_def is_reset_def lower_def lower_char_def)

lemma cats_request_facts:
  "field cats_request ''stop_reason'' = JStr ''tool_use''"
  "display_response cats_request = Inr ()"
  "tool_use_blocks (reply_content cats_request) =
     [tool_use_block ''tu_1'' ''search_web'' (JObj [(''query'', JStr ''cats'')])]"
  by (simp_all add: scenario_defs reading_defs)


lemma single_tool_service_cats_hi:
  "single_tool_service (scripted [Returned cats_request, Returned hi_answer])"
  unfolding single_tool_service_def
proof (intro allI impI)
  fix n r
  assume h: "reply_at (scripted [Returned cats_request, Returned hi_answer]) n = Inr r
               \<and> tool_use_blocks (reply_content r) \<noteq> []"
  have "n = 0"
  proof (rule ccontr)
    assume "n \<noteq> 0"
    then consider "n = 1" | "n \<ge> 2" by linarith
    then show False
    proof cases
      case 1
      with h show False
        by (auto simp: scenario_defs reading_defs)
    next
      case 2
      with h show False
        by (auto simp: scenario_defs reading_defs)
    qed
  qed
  with h have r: "r = cats_request"
    by (simp add: scripted_def reply_at_def)
  show "field r ''stop_reason'' = JStr ''tool_use'' \<and>
        length (tool_use_blocks (reply_content r)) = 1 \<and>
        (\<forall>r'. reply_at (scripted [Returned cats_request, Returned hi_answer]) (Suc n) = Inr r' \<longrightarrow>
              tool_use_blocks (reply_content r') = [])"
    unfolding r \<open>n = 0\<close>
    by (auto simp: scenario_defs reading_defs)
qed

lemma well_typed_scenarios:
  "well_typed_reply cats_request" "well_typed_reply two_requests" "well_typed_reply bare_tool_use"
  by (simp_all add: well_typed_reply_def well_typed_block_def reply_content_def field_def
                    cats_request_def two_requests_def bare_tool_use_def reply_def
                    tool_use_block_def text_block_def)

section \<open>The claims\<close>

text \<open>
  Claim C1.  In a cycle whose first reply has the stop reason \<^verbatim>\<open>tool_use\<close> and a first
  tool-invocation block \<open>b\<close>, and whose follow-up call of \<^verbatim>\<open>send_message\<close> returns
  \<^verbatim>\<open>None\<close>, the tool named in \<open>b\<close> is executed, two requests are made, and the
  conversation that the cycle leaves is the one it found plus the user turn: the assistant
  turn and the tool-result turn are popped again, back to \<^verbatim>\<open>conversation_copy\<close>.
\<close>

theorem rollback_after_failed_followup:
  assumes "\<not> is_exit u" and "\<not> is_reset u"
    and "reply_at e (posts w) = Inr r" and "field r ''stop_reason'' = JStr ''tool_use''"
    and "display_response r = Inr ()" and "tool_use_blocks (reply_content r) = b # later"
    and "reply_at e (Suc (posts w)) = Inr JNull"
  shows "conversation (snd (cycle e k u w)) = conversation w @ [user_message u]
         \<and> executed (log (snd (cycle e k u w))) = executed (log w) @ [field b ''name'']
         \<and> posts (snd (cycle e k u w)) = Suc (Suc (posts w))"
proof -
  from cycle_tool [OF assms(1-6), of k] obtain w5
    where c: "cycle e k u w =
             (Continue, say Newline (snd (send_tool_result e k (conversation w @ [user_message u]) w5)))"
      and w5: "conversation w5 = conversation w @ [user_message u, assistant_message (reply_content r),
                                                tool_result_turn (search_web e) e b (Suc (posts w))]"
        "posts w5 = Suc (posts w)"
        "executed (log w5) = executed (log w) @ [field b ''name'']"
    by blast
  have "conversation w5 = (conversation w @ [user_message u])
          @ [assistant_message (reply_content r), tool_result_turn (search_web e) e b (Suc (posts w))]"
    using w5 by simp
  from send_tool_result_conversation [OF this, of e k] assms(7) w5(2)
  have "conversation (snd (send_tool_result e k (conversation w @ [user_message u]) w5))
          = conversation w @ [user_message u]"
    by simp
  with c w5 show ?thesis by simp
qed

theorem rollback_after_failed_followup_witness:
  "\<not> is_exit ''search for cats'' \<and> \<not> is_reset ''search for cats''
   \<and> reply_at (scripted [Returned cats_request]) (posts session_start) = Inr cats_request
   \<and> field cats_request ''stop_reason'' = JStr ''tool_use''
   \<and> display_response cats_request = Inr ()
   \<and> tool_use_blocks (reply_content cats_request) =
        [tool_use_block ''tu_1'' ''search_web'' (JObj [(''query'', JStr ''cats'')])]
   \<and> reply_at (scripted [Returned cats_request]) (Suc (posts session_start)) = Inr JNull
   \<and> conversation (snd (cycle (scripted [Returned cats_request]) ''key'' ''search for cats''
                           session_start)) = [user_message ''search for cats'']
   \<and> executed (log (snd (cycle (scripted [Returned cats_request]) ''key'' ''search for cats''
                            session_start))) = [JStr ''search_web'']
   \<and> posts (snd (cycle (scripted [Returned cats_request]) ''key'' ''search for cats''
                    session_start)) = 2"
proof -
  have c: "reply_at (scripted [Returned cats_request]) (posts session_start) = Inr cats_request"
    by (simp add: scripted_def session_start_def reply_at_def)
  have d: "reply_at (scripted [Returned cats_request]) (Suc (posts session_start)) = Inr JNull"
    by (simp add: scripted_def session_start_def reply_at_def connection_refused_def)
  from rollback_after_failed_followup
         [OF not_commands(3,4) c cats_request_facts d, of "''key''"]
  show ?thesis
    using not_commands(3,4) c d cats_request_facts
    by (simp add: session_start_def field_def tool_use_block_def)
qed

text \<open>
  Claim C2, as stated, fails.  The reply to the follow-up request is appended without
  being looked at again: when it holds a tool-invocation block, the transcript at the end
  of the cycle has an assistant turn with an invocation and no tool-result turn after it.
  In the session below the first reply asks for \<^verbatim>\<open>search_web\<close> on cats and the reply
  to the tool result asks for \<^verbatim>\<open>search_web\<close> on dogs.
\<close>

theorem orphan_after_second_request:
  "\<not> no_orphans (conversation
       (main (scripted [Returned cats_request, Returned dogs_request]) (Some ''key'')
          [''search for cats'']))"
  by code_simp

text \<open>
  Two more ways to the same state: a reply that holds a tool-invocation block under another
  stop reason (\<^verbatim>\<open>max_tokens\<close>) is appended as a plain answer, and of two invocation
  blocks in one reply only the first gets a tool result.
\<close>

lemma orphan_after_truncated_request:
  "\<not> no_orphans (conversation
       (main (scripted [Returned truncated_request]) (Some ''key'') [''search for birds'']))"
  by code_simp

lemma orphan_of_second_block:
  "\<not> no_orphans (conversation
       (main (scripted [Returned two_requests, Returned hi_answer]) (Some ''key'')
          [''search for cats'']))"
  by code_simp

text \<open>
  Claim C2, amended.  Let the service place a tool-invocation block only in a reply whose
  stop reason is \<^verbatim>\<open>tool_use\<close>, one block in such a reply, and none in the reply to
  the request that follows it.  Then in every state in which \<^verbatim>\<open>main\<close> waits for the
  next input, whatever the inputs so far, every tool-invocation block of every assistant
  turn has in the next turn a tool result with its \<^verbatim>\<open>id\<close>.
\<close>

theorem no_orphans_with_single_tool_service:
  assumes "single_tool_service e"
  shows "no_orphans (conversation (main e loaded_key inputs))"
proof (cases loaded_key)
  case None
  then show ?thesis
    by (simp add: main_def session_start_def)
next
  case (Some api_key)
  have "no_orphans (conversation session_start)"
    by (simp add: session_start_def)
  from main_loop_no_orphans [OF assms this, of api_key inputs] Some
  show ?thesis
    by (simp add: main_def session_start_def)
qed

theorem no_orphans_with_single_tool_service_witness:
  "single_tool_service (scripted [Returned cats_request, Returned hi_answer])
   \<and> no_orphans (conversation
        (main (scripted [Returned cats_request, Returned hi_answer]) (Some ''key'')
           [''search for cats'', ''hello'']))
   \<and> length (conversation
        (main (scripted [Returned cats_request, Returned hi_answer]) (Some ''key'')
           [''search for cats'', ''hello''])) = 5"
proof -
  have "length (conversation
        (main (scripted [Returned cats_request, Returned hi_answer]) (Some ''key'')
           [''search for cats'', ''hello''])) = 5"
    by code_simp
  with single_tool_service_cats_hi
    no_orphans_with_single_tool_service [OF single_tool_service_cats_hi, of "Some ''key''"
      "[''search for cats'', ''hello'']"]
  show ?thesis by blast
qed

text \<open>
  Claim C3.  In a cycle whose first reply has the stop reason \<^verbatim>\<open>tool_use\<close> and a first
  tool-invocation block \<open>b\<close>, the follow-up request is made whatever the tool returned:
  two requests are posted, the first with the conversation and the user turn, the second
  with these, the assistant turn with the content of the reply, and one more turn.  Read
  by its fields, that turn has the role \<^verbatim>\<open>user\<close> and a content of one block, of type
  \<^verbatim>\<open>tool_result\<close>, whose \<^verbatim>\<open>tool_use_id\<close> is the \<^verbatim>\<open>id\<close> of \<open>b\<close>, whose
  \<^verbatim>\<open>content\<close> is the serialised result \<open>d\<close> of \<^verbatim>\<open>execute_tool\<close> and whose
  \<^verbatim>\<open>is_error\<close> is true exactly when \<open>d\<close> has the key \<^verbatim>\<open>error\<close>.
\<close>

theorem tool_result_always_sent:
  assumes "\<not> is_exit u" and "\<not> is_reset u"
    and "reply_at e (posts w) = Inr r" and "field r ''stop_reason'' = JStr ''tool_use''"
    and "display_response r = Inr ()" and "tool_use_blocks (reply_content r) = b # later"
  shows "(let d = tool_result_of (search_web e) e (field b ''name'') (tool_input_of b) (Suc (posts w))
          in \<exists>p1 p2 t blk.
               posted (log (snd (cycle e k u w))) = posted (log w) @ [p1, p2]
               \<and> posted_messages p1 = conversation w @ [user_message u]
               \<and> posted_messages p2 =
                   conversation w @ [user_message u, assistant_message (reply_content r), t]
               \<and> field t ''role'' = JStr ''user''
               \<and> field t ''content'' = JArr [blk]
               \<and> field blk ''type'' = JStr ''tool_result''
               \<and> field blk ''tool_use_id'' = field b ''id''
               \<and> field blk ''content'' = JStr (json_dumps e (JObj d))
               \<and> field blk ''is_error'' = JBool (''error'' \<in> fst ` set d))
         \<and> posts (snd (cycle e k u w)) = Suc (Suc (posts w))"
proof -
  let ?t = "tool_result_turn (search_web e) e b (Suc (posts w))"
  from cycle_tool [OF assms(1-6), of k] obtain w5
    where c: "cycle e k u w =
             (Continue, say Newline (snd (send_tool_result e k (conversation w @ [user_message u]) w5)))"
      and w5: "conversation w5 = conversation w @ [user_message u, assistant_message (reply_content r), ?t]"
        "posts w5 = Suc (posts w)"
        "posted (log w5) = posted (log w) @ [payload (conversation w @ [user_message u]) True]"
    by blast
  have sent: "posted (log (snd (cycle e k u w))) =
          posted (log w) @
          [payload (conversation w @ [user_message u]) True,
           payload (conversation w @ [user_message u, assistant_message (reply_content r), ?t]) True]"
    and two: "posts (snd (cycle e k u w)) = Suc (Suc (posts w))"
    using c w5 by simp_all
  from tool_result_turn_fields [of "search_web e" e b "Suc (posts w)"] obtain blk
    where "field ?t ''role'' = JStr ''user''" and "field ?t ''content'' = JArr [blk]"
      and "field blk ''type'' = JStr ''tool_result''"
      and "field blk ''tool_use_id'' = field b ''id''"
      and "field blk ''content'' =
             JStr (json_dumps e (JObj (tool_result_of (search_web e) e (field b ''name'')
                                         (tool_input_of b) (Suc (posts w)))))"
      and "field blk ''is_error'' =
             JBool (''error'' \<in> fst ` set (tool_result_of (search_web e) e (field b ''name'')
                                               (tool_input_of b) (Suc (posts w))))"
    by blast
  with sent two show ?thesis
    unfolding Let_def
    by (intro conjI exI [of _ "payload (conversation w @ [user_message u]) True"]
              exI [of _ "payload (conversation w @ [user_message u,
                                     assistant_message (reply_content r), ?t]) True"]
              exI [of _ ?t] exI [of _ blk])
       simp_all
qed

theorem tool_result_always_sent_witness:
  "\<not> is_exit ''hello'' \<and> \<not> is_reset ''hello''
   \<and> reply_at (scripted [Returned calculator_request]) (posts session_start)
        = Inr calculator_request
   \<and> field calculator_request ''stop_reason'' = JStr ''tool_use''
   \<and> display_response calculator_request = Inr ()
   \<and> tool_use_blocks (reply_content calculator_request) =
        [tool_use_block ''tu_9'' ''calculator'' (JObj [])]
   \<and> tool_result_of (search_web (scripted [Returned calculator_request]))
        (scripted [Returned calculator_request]) (JStr ''calculator'') (JObj []) 1
        = [(''error'', JStr ''Unknown tool: calculator'')]
   \<and> length (posted (log (snd (cycle (scripted [Returned calculator_request]) ''key'' ''hello''
                                   session_start)))) = 2
   \<and> field (only_block (last (posted_messages (last (posted (log (snd
          (cycle (scripted [Returned calculator_request]) ''key'' ''hello'' session_start))))))))
        ''is_error'' = JBool True
   \<and> field (only_block (last (posted_messages (last (posted (log (snd
          (cycle (scripted [Returned calculator_request]) ''key'' ''hello'' session_start))))))))
        ''tool_use_id'' = JStr ''tu_9''
   \<and> field (only_block (last (posted_messages (last (posted (log (snd
          (cycle (scripted [Returned calculator_request]) ''key'' ''hello'' session_start))))))))
        ''content'' = JStr ''<json>''
   \<and> posts (snd (cycle (scripted [Returned calculator_request]) ''key'' ''hello''
                    session_start)) = 2"
proof -
  let ?e = "scripted [Returned calculator_request]"
  let ?b = "tool_use_block ''tu_9'' ''calculator'' (JObj [])"
  let ?w' = "snd (cycle ?e ''key'' ''hello'' session_start)"
  have c: "reply_at ?e (posts session_start) = Inr calculator_request"
    by (simp add: scripted_def session_start_def reply_at_def)
  have d: "field calculator_request ''stop_reason'' = JStr ''tool_use''"
    and f: "display_response calculator_request = Inr ()"
    and g: "tool_use_blocks (reply_content calculator_request) = [?b]"
    by (simp_all add: scenario_defs calculator_request_def reading_defs)
  have n: "field ?b ''name'' = JStr ''calculator''" "tool_input_of ?b = JObj []"
    "field ?b ''id'' = JStr ''tu_9''" "Suc (posts session_start) = 1"
    by (simp_all add: tool_use_block_def field_def tool_input_of_def session_start_def)
  have t: "tool_result_of (search_web ?e) ?e (JStr ''calculator'') (JObj []) 1
           = [(''error'', JStr ''Unknown tool: calculator'')]"
    by (simp add: tool_result_of_def execute_tool_with_def py_str_def Let_def)
  from tool_result_always_sent [OF not_commands(1,2) c d f g, of "''key''"]
  obtain p1 p2 tr blk
    where sent: "posted (log ?w') = posted (log session_start) @ [p1, p2]"
      and ms: "posted_messages p2 =
                 conversation session_start
                 @ [user_message ''hello'', assistant_message (reply_content calculator_request), tr]"
      and blk: "field tr ''content'' = JArr [blk]"
        "field blk ''tool_use_id'' = JStr ''tu_9''"
        "field blk ''content'' = JStr (json_dumps ?e (JObj [(''error'', JStr ''Unknown tool: calculator'')]))"
        "field blk ''is_error'' = JBool (''error'' \<in> fst ` set [(''error'', JStr ''Unknown tool: calculator'')])"
      and two: "posts ?w' = Suc (Suc (posts session_start))"
    unfolding Let_def n t by blast
  from sent have "last (posted (log ?w')) = p2" and len: "length (posted (log ?w')) = 2"
    by (simp_all add: session_start_def)
  with ms have "last (posted_messages (last (posted (log ?w')))) = tr"
    by simp
  with blk(1) have "only_block (last (posted_messages (last (posted (log ?w'))))) = blk"
    by (simp add: only_block_single)
  with blk two len not_commands(1,2) c d f g t show ?thesis
    by (simp add: session_start_def scripted_def)
qed

text \<open>
  Claim C4.  For a reply that \<^verbatim>\<open>display_response\<close> can print, the cycle executes a tool
  exactly when the stop reason is \<^verbatim>\<open>tool_use\<close> and the content holds a
  tool-invocation block.  Then, with \<open>b\<close> the first such block of the content (no block
  before it is one, whatever comes after it), the tool executed is the one \<open>b\<close> names,
  and the tool-result turn sent with the follow-up request holds the result of that tool on
  the arguments of \<open>b\<close>, under the \<^verbatim>\<open>id\<close> of \<open>b\<close>.
\<close>

theorem tool_use_request_iff_first_block:
  assumes "\<not> is_exit u" and "\<not> is_reset u"
    and "reply_at e (posts w) = Inr r" and "display_response r = Inr ()"
  shows "(executed (log (snd (cycle e k u w))) \<noteq> executed (log w)
            \<longleftrightarrow> field r ''stop_reason'' = JStr ''tool_use'' \<and> tool_use_blocks (reply_content r) \<noteq> [])
         \<and> (\<forall>pre b post.
               field r ''stop_reason'' = JStr ''tool_use'' \<and> reply_content r = JArr (pre @ b # post)
               \<and> (\<forall>x \<in> set pre. \<not> is_tool_use_block x) \<and> is_tool_use_block b
               \<longrightarrow> executed (log (snd (cycle e k u w))) = executed (log w) @ [field b ''name'']
                 \<and> (let d = tool_result_of (search_web e) e (field b ''name'') (tool_input_of b)
                              (Suc (posts w))
                    in last (posted (log (snd (cycle e k u w)))) =
                         payload (conversation w @
                                    [user_message u, assistant_message (reply_content r),
                                     tool_result_message (field b ''id'') (json_dumps e (JObj d))
                                       (''error'' \<in> fst ` set d)]) True))"
proof (intro conjI allI impI)
  show "executed (log (snd (cycle e k u w))) \<noteq> executed (log w)
          \<longleftrightarrow> field r ''stop_reason'' = JStr ''tool_use'' \<and> tool_use_blocks (reply_content r) \<noteq> []"
    by (simp add: cycle_executed_cases [OF assms] split: list.split)
next
  fix pre b post
  assume h: "field r ''stop_reason'' = JStr ''tool_use'' \<and> reply_content r = JArr (pre @ b # post)
               \<and> (\<forall>x \<in> set pre. \<not> is_tool_use_block x) \<and> is_tool_use_block b"
  then have blocks: "tool_use_blocks (reply_content r) = b # filter is_tool_use_block post"
    by (simp add: first_tool_use_block)
  with h show "executed (log (snd (cycle e k u w))) = executed (log w) @ [field b ''name'']"
    by (simp add: cycle_executed_cases [OF assms])
  from h have stop: "field r ''stop_reason'' = JStr ''tool_use''" by simp
  from cycle_tool [OF assms(1-3) stop assms(4) blocks, of k] obtain w5
    where c: "cycle e k u w =
             (Continue, say Newline (snd (send_tool_result e k (conversation w @ [user_message u]) w5)))"
      and w5: "conversation w5 = conversation w @ [user_message u, assistant_message (reply_content r),
                                                tool_result_turn (search_web e) e b (Suc (posts w))]"
    by blast
  then show "let d = tool_result_of (search_web e) e (field b ''name'') (tool_input_of b) (Suc (posts w))
        in last (posted (log (snd (cycle e k u w)))) =
             payload (conversation w @
                        [user_message u, assistant_message (reply_content r),
                         tool_result_message (field b ''id'') (json_dumps e (JObj d))
                           (''error'' \<in> fst ` set d)]) True"
    by (simp add: tool_result_turn_def Let_def map_of_error_ex)
qed

theorem tool_use_request_iff_first_block_witness:
  "\<not> is_exit ''search for cats'' \<and> \<not> is_reset ''search for cats''
   \<and> reply_at (scripted [Returned two_requests]) (posts session_start) = Inr two_requests
   \<and> display_response two_requests = Inr ()
   \<and> field two_requests ''stop_reason'' = JStr ''tool_use''
   \<and> reply_content two_requests =
        JArr ([text_block ''searching'']
              @ tool_use_block ''tu_1'' ''search_web'' (JObj [(''query'', JStr ''cats'')])
              # [tool_use_block ''tu_2'' ''search_web'' (JObj [(''query'', JStr ''dogs'')])])
   \<and> \<not> is_tool_use_block (text_block ''searching'')
   \<and> is_tool_use_block (tool_use_block ''tu_1'' ''search_web'' (JObj [(''query'', JStr ''cats'')]))
   \<and> executed (log (snd (cycle (scripted [Returned two_requests]) ''key'' ''search for cats''
                            session_start))) = [JStr ''search_web'']
   \<and> last (posted (log (snd (cycle (scripted [Returned two_requests]) ''key'' ''search for cats''
                                session_start)))) =
        payload [user_message ''search for cats'',
                 assistant_message (reply_content two_requests),
                 tool_result_message (JStr ''tu_1'') ''<json>'' False] True"
proof -
  let ?e = "scripted [Returned two_requests]"
  let ?pre = "[text_block ''searching'']"
  let ?b = "tool_use_block ''tu_1'' ''search_web'' (JObj [(''query'', JStr ''cats'')])"
  let ?post = "[tool_use_block ''tu_2'' ''search_web'' (JObj [(''query'', JStr ''dogs'')])]"
  have c: "reply_at ?e (posts session_start) = Inr two_requests"
    by (simp add: scripted_def session_start_def reply_at_def)
  have d: "display_response two_requests = Inr ()"
    and f: "field two_requests ''stop_reason'' = JStr ''tool_use''"
    and g: "reply_content two_requests = JArr (?pre @ ?b # ?post)"
    and h: "\<forall>x \<in> set ?pre. \<not> is_tool_use_block x"
    and i: "is_tool_use_block ?b"
    by (simp_all add: scenario_defs reading_defs)
  have t: "tool_result_of (search_web ?e) ?e (field ?b ''name'') (tool_input_of ?b)
             (Suc (posts session_start)) = cats_result 1"
    by (simp add: tool_result_of_def execute_tool_with_def search_web_def scripted_def
                  tool_use_block_def field_def tool_input_of_def py_str_def session_start_def
                  cats_result_def Let_def)
  have pre: "field two_requests ''stop_reason'' = JStr ''tool_use''
               \<and> reply_content two_requests = JArr (?pre @ ?b # ?post)
               \<and> (\<forall>x \<in> set ?pre. \<not> is_tool_use_block x) \<and> is_tool_use_block ?b"
    using f g h i by blast
  from tool_use_request_iff_first_block [OF not_commands(3,4) c d, of "''key''"]
  have "\<forall>pre b post.
          field two_requests ''stop_reason'' = JStr ''tool_use''
          \<and> reply_content two_requests = JArr (pre @ b # post)
          \<and> (\<forall>x \<in> set pre. \<not> is_tool_use_block x) \<and> is_tool_use_block b
          \<longrightarrow> executed (log (snd (cycle ?e ''key'' ''search for cats'' session_start)))
                = executed (log session_start) @ [field b ''name'']
            \<and> (let d = tool_result_of (search_web ?e) ?e (field b ''name'') (tool_input_of b)
                         (Suc (posts session_start))
               in last (posted (log (snd (cycle ?e ''key'' ''search for cats'' session_start)))) =
                    payload (conversation session_start @
                               [user_message ''search for cats'',
                                assistant_message (reply_content two_requests),
                                tool_result_message (field b ''id'') (json_dumps ?e (JObj d))
                                  (''error'' \<in> fst ` set d)]) True)"
    by (rule conjunct2)
  from this [rule_format, OF pre]
  have "executed (log (snd (cycle ?e ''key'' ''search for cats'' session_start)))
          = [JStr ''search_web'']
        \<and> last (posted (log (snd (cycle ?e ''key'' ''search for cats'' session_start)))) =
            payload [user_message ''search for cats'',
                     assistant_message (reply_content two_requests),
                     tool_result_message (JStr ''tu_1'') ''<json>'' False] True"
    by (simp add: t Let_def)
       (simp add: session_start_def scripted_def tool_use_block_def field_def cats_result_def)
  with not_commands(3,4) c d f g i show ?thesis
    by (simp add: is_tool_use_block_def text_block_def)
qed



text \<open>
  Claim C6.  \<^verbatim>\<open>execute_tool\<close> returns a dict and never an exception, for every tool
  name, input and handler.  For a name other than \<^verbatim>\<open>search_web\<close> the dict is
  \<^verbatim>\<open>{"error": "Unknown tool: <name>"}\<close>; when the handler raises, the dict is
  \<^verbatim>\<open>{"error": "Error executing tool search_web: <message>"}\<close>; in both, the dict has
  the key \<^verbatim>\<open>error\<close>, which is what the caller reads as \<^verbatim>\<open>is_error\<close>.  A dict that
  the handler returns is passed on as it is.
\<close>

theorem execute_tool_never_raises:
  "\<exists>d w'. execute_tool_with h e tool_name tool_input w = (Inr d, w')
     \<and> (tool_name \<noteq> JStr ''search_web'' \<longrightarrow>
          d = [(''error'', JStr (''Unknown tool: '' @ py_str e tool_name))]
          \<and> ''error'' \<in> fst ` set d)
     \<and> (\<forall>x. tool_name = JStr ''search_web'' \<and> h (posts w) tool_input = Inl x \<longrightarrow>
          d = [(''error'', JStr (''Error executing tool search_web: '' @ exn_str x))]
          \<and> ''error'' \<in> fst ` set d)
     \<and> (\<forall>d'. tool_name = JStr ''search_web'' \<and> h (posts w) tool_input = Inr d' \<longrightarrow> d = d')"
proof (cases "tool_name = JStr ''search_web''")
  case False
  then show ?thesis
    by (simp add: execute_tool_with_def Let_def)
next
  case True
  show ?thesis
  proof (cases "h (posts w) tool_input")
    case (Inl x)
    with True show ?thesis
      by (simp add: execute_tool_with_def Let_def py_str_def)
  next
    case (Inr d')
    with True show ?thesis
      by (simp add: execute_tool_with_def Let_def)
  qed
qed

theorem execute_tool_never_raises_witness:
  "JStr ''calculator'' \<noteq> JStr ''search_web''
   \<and> fst (execute_tool (scripted []) (JStr ''calculator'') (JObj []) session_start)
       = Inr [(''error'', JStr ''Unknown tool: calculator'')]
   \<and> search_web (scripted []) (posts session_start) (JArr []) =
        Inl (no_attribute (JArr []) ''get'')
   \<and> fst (execute_tool (scripted []) (JStr ''search_web'') (JArr []) session_start)
       = Inr [(''error'', JStr (''Error executing tool search_web: ''
                                 @ quoted ''list'' @ '' object has no attribute '' @ quoted ''get''))]
   \<and> search_web (scripted []) (posts session_start) (JObj [(''query'', JStr ''cats'')]) =
        Inr (cats_result 0)
   \<and> fst (execute_tool (scripted []) (JStr ''search_web'') (JObj [(''query'', JStr ''cats'')])
            session_start) = Inr (cats_result 0)"
proof -
  let ?e = "scripted []"
  let ?cats = "JObj [(''query'', JStr ''cats'')]"
  have a: "JStr ''calculator'' \<noteq> JStr ''search_web''" by simp
  have b: "search_web ?e (posts session_start) (JArr []) = Inl (no_attribute (JArr []) ''get'')"
    by (simp add: search_web_def)
  have c: "search_web ?e (posts session_start) ?cats = Inr (cats_result 0)"
    by (simp add: search_web_def cats_result_def py_str_def scripted_def session_start_def Let_def)
  from execute_tool_never_raises [of "search_web ?e" ?e "JStr ''calculator''" "JObj []" session_start]
  have 1: "fst (execute_tool ?e (JStr ''calculator'') (JObj []) session_start)
             = Inr [(''error'', JStr ''Unknown tool: calculator'')]"
    using a by (auto simp: execute_tool_def py_str_def)
  from execute_tool_never_raises [of "search_web ?e" ?e "JStr ''search_web''" "JArr []" session_start]
  have 2: "fst (execute_tool ?e (JStr ''search_web'') (JArr []) session_start)
             = Inr [(''error'', JStr (''Error executing tool search_web: ''
                                 @ quoted ''list'' @ '' object has no attribute '' @ quoted ''get''))]"
    using b by (auto simp: execute_tool_def no_attribute_def)
  from execute_tool_never_raises [of "search_web ?e" ?e "JStr ''search_web''" ?cats session_start]
  have 3: "fst (execute_tool ?e (JStr ''search_web'') ?cats session_start) = Inr (cats_result 0)"
    using c by (auto simp: execute_tool_def)
  from a b c 1 2 3 show ?thesis by blast
qed



text \<open>
  Claim C8.  When the first call of \<^verbatim>\<open>send_message\<close> in a cycle returns \<^verbatim>\<open>None\<close>, the
  cycle ends with the conversation it found plus the user turn, after one request; it
  prints that no response was received, and nothing of the recovery path is printed.
\<close>

theorem first_call_failure_keeps_user_turn:
  assumes "\<not> is_exit u" and "\<not> is_reset u" and "reply_at e (posts w) = Inr JNull"
  shows "cycle e k u w =
           (Continue,
            w\<lparr>conversation := conversation w @ [user_message u],
              posts := Suc (posts w),
              log := log w @ [Printed ClaudeIsThinking,
                              Posted k (payload (conversation w @ [user_message u]) True)]
                       @ send_message_prints e (posts w)
                       @ [Printed FailedToGetResponse, Printed TryReset]\<rparr>)
         \<and> Printed StateRecovered \<notin> set (send_message_prints e (posts w))"
  using assms
  by (simp add: cycle_eq try_body_none send_message_prints_no_recovery)

theorem first_call_failure_keeps_user_turn_witness:
  "\<not> is_exit ''hello'' \<and> \<not> is_reset ''hello''
   \<and> reply_at (scripted []) (posts session_start) = Inr JNull
   \<and> cycle (scripted []) ''key'' ''hello'' session_start =
       (Continue,
        \<lparr>conversation = [user_message ''hello''],
         posts = 1,
         log = [Printed ClaudeIsThinking,
                Posted ''key'' (payload [user_message ''hello''] True),
                Printed (ApiRequestFailed ''connection refused''),
                Printed FailedToGetResponse, Printed TryReset]\<rparr>)"
proof -
  have c: "reply_at (scripted []) (posts session_start) = Inr JNull"
    by (simp add: scenario_defs)
  from first_call_failure_keeps_user_turn [OF not_commands(1,2) c, of "''key''"]
  show ?thesis
    using not_commands(1,2) c by (simp add: scenario_defs)
qed

text \<open>
  Claim C9.  When the request raises an exception of a class of
  \<^verbatim>\<open>requests.exceptions.RequestException\<close> (a refused connection, a time-out, the
  \<^verbatim>\<open>HTTPError\<close> of \<^verbatim>\<open>raise_for_status\<close>, the decode error of
  \<^verbatim>\<open>response.json\<close>), \<^verbatim>\<open>send_message\<close> returns \<^verbatim>\<open>None\<close> and raises nothing,
  whatever the messages and the tool flag; it prints the message of the exception and
  leaves the conversation alone.  An exception of another class leaves
  \<^verbatim>\<open>send_message\<close>, and both callers catch it: the cycle prints it and goes on to
  the next input, and the follow-up step returns \<^verbatim>\<open>None\<close>.
\<close>

theorem send_message_failure_is_none:
  assumes "requests_post e (posts w) = Raised x" and "is_RequestException (exn_class_of x)"
  shows "fst (send_message e api_key messages include_tools w) = Inr JNull
         \<and> Printed (ApiRequestFailed (exn_str x))
             \<in> set (log (snd (send_message e api_key messages include_tools w)))
         \<and> conversation (snd (send_message e api_key messages include_tools w)) = conversation w
         \<and> (\<forall>w' y. fst (send_message e api_key messages include_tools w') = Inl y \<longrightarrow>
               fst (send_tool_result e api_key cc w') = Inr JNull
               \<and> (\<forall>u. \<not> is_exit u \<and> \<not> is_reset u \<longrightarrow>
                     fst (cycle e api_key u w') = Continue
                     \<and> Printed (ErrorOccurred (exn_str y)) \<in> set (log (snd (cycle e api_key u w')))))"
proof (intro conjI allI impI)
  show "fst (send_message e api_key messages include_tools w) = Inr JNull"
    using assms by (simp add: send_message_eq reply_at_def)
  show "Printed (ApiRequestFailed (exn_str x))
          \<in> set (log (snd (send_message e api_key messages include_tools w)))"
    using assms by (simp add: send_message_eq send_message_prints_def)
  show "conversation (snd (send_message e api_key messages include_tools w)) = conversation w"
    by (simp add: send_message_eq)
next
  fix w' y
  assume "fst (send_message e api_key messages include_tools w') = Inl y"
  then have r: "reply_at e (posts w') = Inl y"
    by (simp add: send_message_fst)
  then show "fst (send_tool_result e api_key cc w') = Inr JNull"
    by (rule send_tool_result_raise)
  fix u
  assume "\<not> is_exit u \<and> \<not> is_reset u"
  with r show "fst (cycle e api_key u w') = Continue"
    and "Printed (ErrorOccurred (exn_str y)) \<in> set (log (snd (cycle e api_key u w')))"
    by (simp_all add: cycle_eq try_body_raise)
qed

theorem send_message_failure_is_none_witness:
  "requests_post (scripted [Raised bad_json]) (posts (session_start\<lparr>posts := 1\<rparr>))
     = Raised connection_refused
   \<and> is_RequestException (exn_class_of connection_refused)
   \<and> fst (send_message (scripted [Raised bad_json]) ''key'' [user_message ''hello''] True
            (session_start\<lparr>posts := 1\<rparr>)) = Inr JNull
   \<and> Printed (ApiRequestFailed ''connection refused'')
        \<in> set (log (snd (send_message (scripted [Raised bad_json]) ''key''
                           [user_message ''hello''] True (session_start\<lparr>posts := 1\<rparr>))))
   \<and> fst (send_message (scripted [Raised bad_json]) ''key'' [user_message ''hello''] True
            session_start) = Inl bad_json
   \<and> \<not> is_exit ''hello'' \<and> \<not> is_reset ''hello''
   \<and> fst (cycle (scripted [Raised bad_json]) ''key'' ''hello'' session_start) = Continue
   \<and> Printed (ErrorOccurred ''Expecting value: line 1 column 1 (char 0)'')
        \<in> set (log (snd (cycle (scripted [Raised bad_json]) ''key'' ''hello'' session_start)))"
proof -
  let ?e = "scripted [Raised bad_json]"
  let ?w = "session_start\<lparr>posts := 1\<rparr>"
  have a: "requests_post ?e (posts ?w) = Raised connection_refused"
    by (simp add: scripted_def)
  have b: "is_RequestException (exn_class_of connection_refused)"
    by (simp add: connection_refused_def)
  have c: "fst (send_message ?e ''key'' [user_message ''hello''] True session_start) = Inl bad_json"
    by (simp add: send_message_fst reply_at_def scripted_def session_start_def bad_json_def)
  note t = send_message_failure_is_none [OF a b, of "''key''" "[user_message ''hello'']" True "[]"]
  from t have 1: "fst (send_message ?e ''key'' [user_message ''hello''] True ?w) = Inr JNull"
    and 2: "Printed (ApiRequestFailed (exn_str connection_refused))
              \<in> set (log (snd (send_message ?e ''key'' [user_message ''hello''] True ?w)))"
    and 3: "\<forall>w' y. fst (send_message ?e ''key'' [user_message ''hello''] True w') = Inl y \<longrightarrow>
               fst (send_tool_result ?e ''key'' [] w') = Inr JNull
               \<and> (\<forall>u. \<not> is_exit u \<and> \<not> is_reset u \<longrightarrow>
                     fst (cycle ?e ''key'' u w') = Continue
                     \<and> Printed (ErrorOccurred (exn_str y)) \<in> set (log (snd (cycle ?e ''key'' u w'))))"
    by blast+
  from 3 c not_commands(1,2)
  have 4: "fst (cycle ?e ''key'' ''hello'' session_start) = Continue
           \<and> Printed (ErrorOccurred (exn_str bad_json))
                \<in> set (log (snd (cycle ?e ''key'' ''hello'' session_start)))"
    by blast
  from a b c 1 2 4 not_commands(1,2) show ?thesis
    by (simp add: connection_refused_def bad_json_def)
qed

text \<open>
  Claim C10.  For every handler: the follow-up request that
  \<^verbatim>\<open>process_tool_use_response\<close> posts ends with the tool-result turn it appended, and
  the field \<^verbatim>\<open>is_error\<close> of the block of that turn, read from the block, is true
  exactly when the dict \<open>d\<close> that \<^verbatim>\<open>execute_tool\<close> returned has the key
  \<^verbatim>\<open>error\<close>.  So when the handler completes with a dict \<open>d'\<close> that holds the key
  \<^verbatim>\<open>error\<close>, the block carries the serialised \<open>d'\<close> and \<^verbatim>\<open>is_error\<close> true.
\<close>

theorem is_error_iff_error_key:
  assumes "display_response r = Inr ()" and "tool_use_blocks (reply_content r) = b # later"
  shows "(let d = tool_result_of h e (field b ''name'') (tool_input_of b) (posts w)
          in \<exists>p t blk.
               posted (log (snd (process_tool_use_response_with h e k r w))) = posted (log w) @ [p]
               \<and> posted_messages p = conversation w @ [assistant_message (reply_content r), t]
               \<and> field t ''role'' = JStr ''user''
               \<and> field t ''content'' = JArr [blk]
               \<and> field blk ''type'' = JStr ''tool_result''
               \<and> field blk ''is_error'' = JBool (''error'' \<in> fst ` set d)
               \<and> (\<forall>d'. field b ''name'' = JStr ''search_web''
                        \<and> h (posts w) (tool_input_of b) = Inr d' \<and> ''error'' \<in> fst ` set d' \<longrightarrow>
                      field blk ''content'' = JStr (json_dumps e (JObj d'))
                      \<and> field blk ''is_error'' = JBool True))"
proof -
  let ?t = "tool_result_turn h e b (posts w)"
  let ?d = "tool_result_of h e (field b ''name'') (tool_input_of b) (posts w)"
  let ?p = "payload (conversation w @ [assistant_message (reply_content r), ?t]) True"
  from process_tool [OF assms, of h e k w] obtain w5
    where p: "process_tool_use_response_with h e k r w = send_tool_result e k (conversation w) w5"
      and w5: "conversation w5 = conversation w @ [assistant_message (reply_content r), ?t]"
        "posted (log w5) = posted (log w)"
    by blast
  have sent: "posted (log (snd (process_tool_use_response_with h e k r w))) = posted (log w) @ [?p]"
    using p w5 by simp
  from tool_result_turn_fields [of h e b "posts w"] obtain blk
    where role: "field ?t ''role'' = JStr ''user''" and content: "field ?t ''content'' = JArr [blk]"
      and type: "field blk ''type'' = JStr ''tool_result''"
      and dumped: "field blk ''content'' = JStr (json_dumps e (JObj ?d))"
      and flag: "field blk ''is_error'' = JBool (''error'' \<in> fst ` set ?d)"
    by blast
  have particular: "field blk ''content'' = JStr (json_dumps e (JObj d'))
                    \<and> field blk ''is_error'' = JBool True"
    if "field b ''name'' = JStr ''search_web''
          \<and> h (posts w) (tool_input_of b) = Inr d' \<and> ''error'' \<in> fst ` set d'" for d'
  proof -
    from that have "?d = d'"
      by (simp add: tool_result_of_search_web)
    with that dumped flag show ?thesis by simp
  qed
  have "posted (log (snd (process_tool_use_response_with h e k r w))) = posted (log w) @ [?p]
        \<and> posted_messages ?p = conversation w @ [assistant_message (reply_content r), ?t]
        \<and> field ?t ''role'' = JStr ''user''
        \<and> field ?t ''content'' = JArr [blk]
        \<and> field blk ''type'' = JStr ''tool_result''
        \<and> field blk ''is_error'' = JBool (''error'' \<in> fst ` set ?d)
        \<and> (\<forall>d'. field b ''name'' = JStr ''search_web''
                 \<and> h (posts w) (tool_input_of b) = Inr d' \<and> ''error'' \<in> fst ` set d' \<longrightarrow>
               field blk ''content'' = JStr (json_dumps e (JObj d'))
               \<and> field blk ''is_error'' = JBool True)"
    using sent posted_messages_payload [of "conversation w @ [assistant_message (reply_content r), ?t]" True]
      role content type flag particular
    by blast
  then show ?thesis
    unfolding Let_def by blast
qed

theorem is_error_iff_error_key_witness:
  "display_response cats_request = Inr ()
   \<and> tool_use_blocks (reply_content cats_request) =
        [tool_use_block ''tu_1'' ''search_web'' (JObj [(''query'', JStr ''cats'')])]
   \<and> field (tool_use_block ''tu_1'' ''search_web'' (JObj [(''query'', JStr ''cats'')])) ''name''
        = JStr ''search_web''
   \<and> verbose_tool (posts session_start)
        (tool_input_of (tool_use_block ''tu_1'' ''search_web'' (JObj [(''query'', JStr ''cats'')])))
        = Inr [(''answer'', JInt 42), (''error'', JStr ''none'')]
   \<and> ''error'' \<in> fst ` set [(''answer'', JInt 42), (''error'', JStr ''none'')]
   \<and> field (only_block (last (posted_messages (last (posted (log (snd
          (process_tool_use_response_with verbose_tool (scripted []) ''key'' cats_request
             session_start))))))))
        ''is_error'' = JBool True
   \<and> field (only_block (last (posted_messages (last (posted (log (snd
          (process_tool_use_response_with search_web_now (scripted []) ''key'' cats_request
             session_start))))))))
        ''is_error'' = JBool False"
proof -
  let ?b = "tool_use_block ''tu_1'' ''search_web'' (JObj [(''query'', JStr ''cats'')])"
  let ?d = "[(''answer'', JInt 42), (''error'', JStr ''none'')]"
  let ?w' = "snd (process_tool_use_response_with verbose_tool (scripted []) ''key'' cats_request
                    session_start)"
  let ?w'' = "snd (process_tool_use_response_with search_web_now (scripted []) ''key'' cats_request
                    session_start)"
  have a: "field ?b ''name'' = JStr ''search_web''
             \<and> verbose_tool (posts session_start) (tool_input_of ?b) = Inr ?d
             \<and> ''error'' \<in> fst ` set ?d"
    by (simp add: tool_use_block_def field_def verbose_tool_def)
  from is_error_iff_error_key [OF cats_request_facts(2,3), of verbose_tool "scripted []"
                                session_start "''key''"]
  obtain p t blk
    where sent: "posted (log ?w') = posted (log session_start) @ [p]"
      and ms: "posted_messages p =
                 conversation session_start @ [assistant_message (reply_content cats_request), t]"
      and content: "field t ''content'' = JArr [blk]"
      and particular: "\<forall>d'. field ?b ''name'' = JStr ''search_web''
                        \<and> verbose_tool (posts session_start) (tool_input_of ?b) = Inr d'
                        \<and> ''error'' \<in> fst ` set d' \<longrightarrow>
                      field blk ''content'' = JStr (json_dumps (scripted []) (JObj d'))
                      \<and> field blk ''is_error'' = JBool True"
    unfolding Let_def by blast
  from particular a have flag: "field blk ''is_error'' = JBool True" by blast
  from sent ms content have "only_block (last (posted_messages (last (posted (log ?w'))))) = blk"
    by (simp add: only_block_single)
  with flag have 1: "field (only_block (last (posted_messages (last (posted (log ?w'))))))
                       ''is_error'' = JBool True"
    by simp
  have d0: "tool_result_of search_web_now (scripted []) (field ?b ''name'') (tool_input_of ?b)
              (posts session_start) = cats_result 0"
    by (simp add: tool_result_of_def execute_tool_with_def search_web_now_def search_web_def
                  scripted_def tool_use_block_def field_def tool_input_of_def py_str_def
                  session_start_def cats_result_def Let_def)
  from is_error_iff_error_key [OF cats_request_facts(2,3), of search_web_now "scripted []"
                                session_start "''key''"]
  obtain p' t' blk'
    where sent': "posted (log ?w'') = posted (log session_start) @ [p']"
      and ms': "posted_messages p' =
                 conversation session_start @ [assistant_message (reply_content cats_request), t']"
      and content': "field t' ''content'' = JArr [blk']"
      and flag': "field blk' ''is_error'' = JBool (''error'' \<in> fst ` set (cats_result 0))"
    unfolding Let_def d0 by blast
  from sent' ms' content' have "only_block (last (posted_messages (last (posted (log ?w''))))) = blk'"
    by (simp add: only_block_single)
  with flag' have 2: "field (only_block (last (posted_messages (last (posted (log ?w''))))))
                       ''is_error'' = JBool False"
    by (simp add: cats_result_def)
  from a cats_request_facts(2,3) 1 2 show ?thesis by simp
qed

end
